theory Spec2Isabelle
  imports Main
begin

section \<open>Errors\<close>

text \<open>
  Go errors as values. \<open>New m\<close> is an error made from a message (\<open>errors.New\<close>,
  \<open>fmt.Errorf\<close> with \<open>%s\<close>, or an error handed back by a collaborator);
  \<open>Wrap e m\<close> is \<open>errors.Wrap(e, m)\<close> of package \<open>github.com/pkg/errors\<close>: it
  keeps \<open>e\<close> as its cause and prefixes the message.
\<close>

datatype error = New string | Wrap error string

text \<open>The method \<open>err.Error()\<close>.\<close>

fun err_Error :: "error \<Rightarrow> string" where
  "err_Error (New m) = m"
| "err_Error (Wrap e m) = m @ '': '' @ err_Error e"

text \<open>\<open>errors.Cause\<close>: the innermost error of a chain of wraps.\<close>

fun Cause :: "error \<Rightarrow> error" where
  "Cause (New m) = New m"
| "Cause (Wrap e m) = Cause e"

text \<open>\<open>fmt.Errorf(prefix + "%s", err)\<close>: a new error; the argument survives as text only.\<close>

definition Errorf_s :: "string \<Rightarrow> error \<Rightarrow> error" where
  "Errorf_s prefix e = New (prefix @ err_Error e)"

text \<open>\<open>strings.HasPrefix\<close>.\<close>

definition HasPrefix :: "string \<Rightarrow> string \<Rightarrow> bool" where
  "HasPrefix s p = (take (length p) s = p)"

section \<open>References of package \<open>docker/distribution/reference\<close>\<close>

text \<open>
  The concrete reference types of the package. Every one but the digest-only reference
  implements the interface \<open>Named\<close>.
\<close>

record repository =
  domain :: string
  path :: string

datatype Named =
    NamedRepository repository
  | CanonicalReference repository string
  | TaggedReference repository string
  | FullReference repository string string

datatype Reference = NamedRef Named | DigestReference string

fun repo_of :: "Named \<Rightarrow> repository" where
  "repo_of (NamedRepository r) = r"
| "repo_of (CanonicalReference r d) = r"
| "repo_of (TaggedReference r t) = r"
| "repo_of (FullReference r t d) = r"

fun tag_of :: "Named \<Rightarrow> string option" where
  "tag_of (NamedRepository r) = None"
| "tag_of (CanonicalReference r d) = None"
| "tag_of (TaggedReference r t) = Some t"
| "tag_of (FullReference r t d) = Some t"

fun digest_of :: "Named \<Rightarrow> string option" where
  "digest_of (NamedRepository r) = None"
| "digest_of (CanonicalReference r d) = Some d"
| "digest_of (TaggedReference r t) = None"
| "digest_of (FullReference r t d) = Some d"

text \<open>\<open>repository.Name()\<close>: the path alone when there is no domain.\<close>

definition repository_Name :: "repository \<Rightarrow> string" where
  "repository_Name r = (if domain r = [] then path r else domain r @ ''/'' @ path r)"

definition Name :: "Named \<Rightarrow> string" where
  "Name n = repository_Name (repo_of n)"

text \<open>\<open>reference.Domain\<close>.\<close>

definition reference_Domain :: "Named \<Rightarrow> string" where
  "reference_Domain n = domain (repo_of n)"

text \<open>The method \<open>String()\<close> of a named reference.\<close>

fun Named_String :: "Named \<Rightarrow> string" where
  "Named_String (NamedRepository r) = repository_Name r"
| "Named_String (CanonicalReference r d) = repository_Name r @ ''@'' @ d"
| "Named_String (TaggedReference r t) = repository_Name r @ '':'' @ t"
| "Named_String (FullReference r t d) = repository_Name r @ '':'' @ t @ ''@'' @ d"

section \<open>The digest rewriter and the reference parser of \<open>publish.go\<close>\<close>

text \<open>
  \<open>rewriteImageWithDigest\<close>. The library function \<open>reference.Parse\<close> is the
  parameter \<open>parse\<close>. The digest is a plain string and is not inspected.
\<close>

definition rewriteImageWithDigest ::
  "(string \<Rightarrow> error + Reference) \<Rightarrow> string \<Rightarrow> string \<Rightarrow> error + string" where
  "rewriteImageWithDigest parse InvocationImage digest =
     (case parse InvocationImage of
        Inl err \<Rightarrow> Inl (Errorf_s ''unable to parse docker image: '' err)
      | Inr ref \<Rightarrow>
          (case ref of
             DigestReference d \<Rightarrow> Inl (New ''had an issue with the docker image'')
           | NamedRef named \<Rightarrow> Inr (Name named @ ''@'' @ digest)))"

text \<open>
  \<open>parseOCIReference\<close>: the library function \<open>reference.ParseNormalizedNamed\<close>,
  the parameter \<open>parseNormalizedNamed\<close>, and nothing else.
\<close>

definition parseOCIReference ::
  "(string \<Rightarrow> error + Named) \<Rightarrow> string \<Rightarrow> error + Named" where
  "parseOCIReference parseNormalizedNamed ociRef = parseNormalizedNamed ociRef"

section \<open>Progress display\<close>

text \<open>
  \<open>remotes.FixupEvent\<close> of package \<open>cnab-to-oci\<close>, with the fields \<open>displayEvent\<close>
  reads. The event type is a string type there; the two constants the switch names are
  \<open>"CopyImageStart"\<close> and \<open>"CopyImageEnd"\<close>.
\<close>

record FixupEvent =
  SourceImage :: string
  EventType :: string
  Error :: "error option"

definition FixupEventTypeCopyImageStart :: string where
  "FixupEventTypeCopyImageStart = ''CopyImageStart''"

definition FixupEventTypeCopyImageEnd :: string where
  "FixupEventTypeCopyImageEnd = ''CopyImageEnd''"

text \<open>
  \<open>displayEvent\<close>. The writer \<open>p.Out\<close> is the list of the texts written to it, one
  element for each \<open>Fprintf\<close> call.
\<close>

definition displayEvent :: "string list \<Rightarrow> FixupEvent \<Rightarrow> string list" where
  "displayEvent Out ev =
     (if EventType ev = FixupEventTypeCopyImageStart then
        Out @ [''Starting to copy image '' @ SourceImage ev @ ''...\<newline>'']
      else if EventType ev = FixupEventTypeCopyImageEnd then
        (case Error ev of
           Some err \<Rightarrow>
             Out @ [''Failed to copy image '' @ SourceImage ev @ '': '' @ err_Error err @ ''\<newline>'']
         | None \<Rightarrow> Out @ [''Completed image '' @ SourceImage ev @ '' copy\<newline>''])
      else Out)"

section \<open>Publish options\<close>

text \<open>
  \<open>PublishOptions\<close> embeds \<open>bundleFileOptions\<close>, a struct of this package declared in
  another file; \<open>File\<close> is the field \<open>publish.go\<close> reads.
\<close>

record bundleFileOptions =
  File :: string

record PublishOptions = bundleFileOptions +
  InsecureRegistry :: bool

text \<open>
  \<open>PublishOptions.Validate\<close>. The method \<open>bundleFileOptions.Validate\<close> is declared in
  another file of the package and is the parameter \<open>bfoValidate\<close>: it has a pointer
  receiver, so it returns the embedded options as it leaves them, with its error.
\<close>

definition Validate ::
  "(bundleFileOptions \<Rightarrow> bundleFileOptions \<times> error option) \<Rightarrow> PublishOptions
     \<Rightarrow> PublishOptions \<times> error option" where
  "Validate bfoValidate opts =
     (case bfoValidate (bundleFileOptions.truncate opts) of
        (b, Some err) \<Rightarrow> (opts\<lparr>File := File b\<rparr>, Some err)
      | (b, None) \<Rightarrow>
          (if File b = []
           then (opts\<lparr>File := File b\<rparr>, Some (New ''could not find porter.yaml in the current directory, make sure you are in the right directory or specify the porter manifest with --file''))
           else (opts\<lparr>File := File b\<rparr>, None)))"

section \<open>The publish pipeline\<close>

text \<open>The manifest of \<open>p.Config\<close>, with the two fields \<open>publish.go\<close> reads.\<close>

record Manifest =
  Image :: string
  BundleTag :: string

text \<open>\<open>remotes.ResolverConfig\<close>; the resolver itself is a value of another package.\<close>

record 'r ResolverConfig =
  Resolver :: 'r

text \<open>
  The calls \<open>publish.go\<close> makes to its collaborators. A run of \<open>Publish\<close> yields the
  list of the calls made, in order, each with the error it returned (\<open>None\<close> when it
  returned none), the texts written to \<open>p.Out\<close>, and the error \<open>Publish\<close> returns.
\<close>

datatype ('b, 'r) call =
    Call_LoadManifestFrom string
  | Call_LoadManifest
  | Call_EnsureBundleIsUpToDate
  | Call_NewDockerCli
  | Call_Initialize
  | Call_ParseNormalizedNamed string
  | Call_ParseRepositoryInfo
  | Call_ResolveAuthConfig
  | Call_EncodeAuthToBase64
  | Call_ImagePush string string
  | Call_DisplayJSONMessagesStream
  | Call_DistributionInspect string string
  | Call_Parse string
  | Call_buildBundle string string
  | Call_ReadFile string
  | Call_ParseReader
  | Call_NewResolverConfig "string list"
  | Call_FixupBundle 'b Named "'r ResolverConfig"
  | Call_Push 'b Named 'r

type_synonym ('b, 'r) entry = "('b, 'r) call \<times> error option"

text \<open>The calls that talk to a registry.\<close>

fun is_network :: "('b, 'r) call \<Rightarrow> bool" where
  "is_network (Call_ImagePush img auth) = True"
| "is_network Call_DisplayJSONMessagesStream = True"
| "is_network (Call_DistributionInspect img auth) = True"
| "is_network (Call_FixupBundle b ref rc) = True"
| "is_network (Call_Push b ref r) = True"
| "is_network c = False"

text \<open>The calls of the relocation and of the final push, which take the resolver.\<close>

fun is_FixupBundle :: "('b, 'r) call \<Rightarrow> bool" where
  "is_FixupBundle (Call_FixupBundle b ref rc) = True"
| "is_FixupBundle c = False"

fun is_Push :: "('b, 'r) call \<Rightarrow> bool" where
  "is_Push (Call_Push b ref r) = True"
| "is_Push c = False"

fun is_NewResolverConfig :: "('b, 'r) call \<Rightarrow> bool" where
  "is_NewResolverConfig (Call_NewResolverConfig regs) = True"
| "is_NewResolverConfig c = False"

text \<open>The resolver a call is handed, when it is handed one.\<close>

fun resolver_of :: "('b, 'r) call \<Rightarrow> 'r option" where
  "resolver_of (Call_FixupBundle b ref rc) = Some (Resolver rc)"
| "resolver_of (Call_Push b ref r) = Some r"
| "resolver_of c = None"

text \<open>The error of a Go result pair.\<close>

fun errOf :: "error + 'x \<Rightarrow> error option" where
  "errOf (Inl err) = Some err"
| "errOf (Inr x) = None"

text \<open>
  The collaborators of \<open>Publish\<close>: methods of \<open>Porter\<close> and its \<open>Config\<close> declared in
  other files, and functions of other packages. Each is a function of the arguments the
  call passes; the types \<open>'c\<close> (Docker client), \<open>'i\<close> (repository info), \<open>'a\<close> (auth
  configuration), \<open>'s\<close> (push response), \<open>'b\<close> (bundle) and \<open>'r\<close> (resolver) belong to
  other packages. The manifest is the one \<open>LoadManifest\<close> or \<open>LoadManifestFrom\<close> stored
  in \<open>p.Config\<close>.

  \<open>ReadFile\<close> returns the bytes read together with its error, as the Go function does.
  \<open>DisplayJSONMessagesStream\<close> returns the texts it writes to \<open>p.Out\<close>; \<open>FixupBundle\<close>
  returns the events it hands to its callback and the bundle as it leaves it.
  \<open>DistributionInspect\<close> and \<open>Push\<close> return the digest field of their descriptor.
  \<open>Sprintf_q\<close> is the verb \<open>%q\<close> of package \<open>fmt\<close>.
\<close>

record ('c, 'i, 'a, 's, 'b, 'r) env =
  LoadManifestFrom :: "string \<Rightarrow> error + Manifest"
  LoadManifest :: "error + Manifest"
  EnsureBundleIsUpToDate :: "Manifest \<Rightarrow> bundleFileOptions \<Rightarrow> error option"
  NewDockerCli :: "error + 'c"
  Initialize :: "'c \<Rightarrow> error option"
  ParseNormalizedNamed :: "string \<Rightarrow> error + Named"
  Parse :: "string \<Rightarrow> error + Reference"
  ParseRepositoryInfo :: "Named \<Rightarrow> error + 'i"
  ResolveAuthConfig :: "'c \<Rightarrow> 'i \<Rightarrow> 'a"
  EncodeAuthToBase64 :: "'a \<Rightarrow> error + string"
  ImagePush :: "'c \<Rightarrow> string \<Rightarrow> string \<Rightarrow> error + 's"
  DisplayJSONMessagesStream :: "'s \<Rightarrow> string list \<times> error option"
  DistributionInspect :: "'c \<Rightarrow> string \<Rightarrow> string \<Rightarrow> error + string"
  buildBundle :: "Manifest \<Rightarrow> string \<Rightarrow> string \<Rightarrow> error option"
  ReadFile :: "string \<Rightarrow> string \<times> error option"
  ParseReader :: "string \<Rightarrow> error + 'b"
  NewResolverConfigFromDockerConfigFile :: "string list \<Rightarrow> 'r ResolverConfig"
  FixupBundle :: "'b \<Rightarrow> Named \<Rightarrow> 'r ResolverConfig \<Rightarrow> FixupEvent list \<times> 'b \<times> error option"
  Push :: "'b \<Rightarrow> Named \<Rightarrow> 'r \<Rightarrow> error + string"
  Sprintf_q :: "string \<Rightarrow> string"

record ('b, 'r) run =
  calls :: "('b, 'r) entry list"
  out :: "string list"
  result :: "error option"

text \<open>\<open>createResolver\<close>.\<close>

definition createResolver ::
  "('c, 'i, 'a, 's, 'b, 'r) env \<Rightarrow> string list \<Rightarrow> 'r ResolverConfig" where
  "createResolver env insecureRegistries =
     NewResolverConfigFromDockerConfigFile env insecureRegistries"

text \<open>\<open>getDockerClient\<close>: the calls made and the client or the error.\<close>

definition getDockerClient ::
  "('c, 'i, 'a, 's, 'b, 'r) env \<Rightarrow> ('b, 'r) entry list \<times> (error + 'c)" where
  "getDockerClient env =
     (case NewDockerCli env of
        Inl err \<Rightarrow>
          ([(Call_NewDockerCli, Some err)], Inl (Wrap err ''could not create new docker client''))
      | Inr cli \<Rightarrow>
          (case Initialize env cli of
             Some err \<Rightarrow> ([(Call_NewDockerCli, None), (Call_Initialize, Some err)], Inl err)
           | None \<Rightarrow> ([(Call_NewDockerCli, None), (Call_Initialize, None)], Inr cli)))"

text \<open>
  \<open>publishInvocationImage\<close>: the calls made, the texts written to \<open>p.Out\<close>, and the
  digest or the error.
\<close>

definition publishInvocationImage ::
  "('c, 'i, 'a, 's, 'b, 'r) env \<Rightarrow> Manifest \<Rightarrow> 'c
     \<Rightarrow> ('b, 'r) entry list \<times> string list \<times> (error + string)" where
  "publishInvocationImage env m cli =
     (let r1 = parseOCIReference (ParseNormalizedNamed env) (Image m);
          t1 = [(Call_ParseNormalizedNamed (Image m), errOf r1)]
      in
      case r1 of
        Inl err \<Rightarrow> (t1, [], Inl err)
      | Inr ref \<Rightarrow>
     (let r2 = ParseRepositoryInfo env ref;
          t2 = t1 @ [(Call_ParseRepositoryInfo, errOf r2)]
      in
      case r2 of
        Inl err \<Rightarrow> (t2, [], Inl err)
      | Inr repoInfo \<Rightarrow>
     (let authConfig = ResolveAuthConfig env cli repoInfo;
          r3 = EncodeAuthToBase64 env authConfig;
          t3 = t2 @ [(Call_ResolveAuthConfig, None), (Call_EncodeAuthToBase64, errOf r3)]
      in
      case r3 of
        Inl err \<Rightarrow> (t3, [], Inl err)
      | Inr encodedAuth \<Rightarrow>
     (let r4 = ImagePush env cli (Image m) encodedAuth;
          t4 = t3 @ [(Call_ImagePush (Image m) encodedAuth, errOf r4)]
      in
      case r4 of
        Inl err \<Rightarrow> (t4, [], Inl (Wrap err ''docker push failed''))
      | Inr pushResponse \<Rightarrow>
     (let r5 = DisplayJSONMessagesStream env pushResponse;
          t5 = t4 @ [(Call_DisplayJSONMessagesStream, snd r5)]
      in
      case r5 of
        (w, Some err) \<Rightarrow>
          (if HasPrefix (err_Error err) ''denied''
           then (t5, w, Inl (Wrap err ''docker push authentication failed''))
           else (t5, w, Inl (Wrap err ''failed to stream docker push stdout'')))
      | (w, None) \<Rightarrow>
     (let r6 = DistributionInspect env cli (Image m) encodedAuth;
          t6 = t5 @ [(Call_DistributionInspect (Image m) encodedAuth, errOf r6)]
      in
      case r6 of
        Inl err \<Rightarrow> (t6, w, Inl (Wrap err ''unable to inspect docker image''))
      | Inr dist_Descriptor_Digest \<Rightarrow> (t6, w, Inr dist_Descriptor_Digest)))))))"

text \<open>
  \<open>Publish\<close>. Line 84 reads the descriptor file and line 85 assigns \<open>err\<close> again
  before anything looks at it, so the bytes are parsed whatever \<open>ReadFile\<close> reported.
\<close>

definition Publish ::
  "('c, 'i, 'a, 's, 'b, 'r) env \<Rightarrow> PublishOptions \<Rightarrow> ('b, 'r) run" where
  "Publish env opts =
     (let r1 = (if File opts \<noteq> [] then LoadManifestFrom env (File opts) else LoadManifest env);
          t1 = [(if File opts \<noteq> [] then Call_LoadManifestFrom (File opts) else Call_LoadManifest,
                 errOf r1)]
      in
      case r1 of
        Inl err \<Rightarrow> \<lparr>calls = t1, out = [], result = Some err\<rparr>
      | Inr m \<Rightarrow>
     (let r2 = EnsureBundleIsUpToDate env m (bundleFileOptions.truncate opts);
          t2 = t1 @ [(Call_EnsureBundleIsUpToDate, r2)]
      in
      case r2 of
        Some err \<Rightarrow> \<lparr>calls = t2, out = [], result = Some err\<rparr>
      | None \<Rightarrow>
     (case getDockerClient env of
        (c3, Inl err) \<Rightarrow> \<lparr>calls = t2 @ c3, out = [], result = Some err\<rparr>
      | (c3, Inr cli) \<Rightarrow>
     (let t3 = t2 @ c3;
          o1 = [''Pushing CNAB invocation image...\<newline>'']
      in
      case publishInvocationImage env m cli of
        (c4, w, Inl err) \<Rightarrow>
          \<lparr>calls = t3 @ c4, out = o1 @ w,
           result = Some (Wrap err ''unable to push CNAB invocation image'')\<rparr>
      | (c4, w, Inr digest) \<Rightarrow>
     (let o2 = o1 @ w;
          t4 = t3 @ c4 @ [(Call_Parse (Image m), errOf (Parse env (Image m)))]
      in
      case rewriteImageWithDigest (Parse env) (Image m) digest of
        Inl err \<Rightarrow>
          \<lparr>calls = t4, out = o2,
           result = Some (Wrap err ''unable to update invocation image reference: %s'')\<rparr>
      | Inr taggedImage \<Rightarrow>
     (let o3 = o2 @ [''\<newline>Generating CNAB bundle.json...\<newline>''];
          r5 = buildBundle env m taggedImage digest;
          t5 = t4 @ [(Call_buildBundle taggedImage digest, r5)]
      in
      case r5 of
        Some err \<Rightarrow>
          \<lparr>calls = t5, out = o3, result = Some (Wrap err ''unable to generate CNAB bundle.json'')\<rparr>
      | None \<Rightarrow>
     (let r6 = ReadFile env ''cnab/bundle.json'';
          b = fst r6;
          r7 = ParseReader env b;
          t7 = t5 @ [(Call_ReadFile ''cnab/bundle.json'', snd r6), (Call_ParseReader, errOf r7)]
      in
      case r7 of
        Inl err \<Rightarrow>
          \<lparr>calls = t7, out = o3, result = Some (Wrap err ''unable to load CNAB bundle'')\<rparr>
      | Inr bun \<Rightarrow>
     (if BundleTag m = [] then
        \<lparr>calls = t7, out = o3,
         result = Some (New ''porter.yaml must specify a `tag` value for this bundle'')\<rparr>
      else
     (let r8 = parseOCIReference (ParseNormalizedNamed env) (BundleTag m);
          t8 = t7 @ [(Call_ParseNormalizedNamed (BundleTag m), errOf r8)]
      in
      case r8 of
        Inl err \<Rightarrow>
          \<lparr>calls = t8, out = o3,
           result = Some (Wrap err ''invalid bundle tag reference. expected value is REGISTRY/bundle:tag'')\<rparr>
      | Inr ref \<Rightarrow>
     (let insecureRegistries = (if InsecureRegistry opts then [] @ [reference_Domain ref] else []);
          resolverConfig = createResolver env insecureRegistries;
          r9 = FixupBundle env bun ref resolverConfig;
          t9 = t8 @ [(Call_NewResolverConfig insecureRegistries, None),
                     (Call_FixupBundle bun ref resolverConfig, snd (snd r9))]
      in
      case r9 of
        (evs, bun', Some err) \<Rightarrow>
          \<lparr>calls = t9, out = foldl displayEvent o3 evs, result = Some err\<rparr>
      | (evs, bun', None) \<Rightarrow>
     (let o4 = foldl displayEvent o3 evs;
          r10 = Push env bun' ref (Resolver resolverConfig);
          t10 = t9 @ [(Call_Push bun' ref (Resolver resolverConfig), errOf r10)]
      in
      case r10 of
        Inl err \<Rightarrow> \<lparr>calls = t10, out = o4, result = Some err\<rparr>
      | Inr d_Digest \<Rightarrow>
          \<lparr>calls = t10,
           out = o4 @ [''Bundle tag '' @ Named_String ref @ '' pushed successfully, with digest ''
                        @ Sprintf_q env d_Digest @ ''\<newline>''],
           result = None\<rparr>)))))))))))"

section \<open>The grammar of package \<open>reference\<close>\<close>

text \<open>
  \<open>reference.Parse\<close> and \<open>reference.ParseNormalizedNamed\<close> belong to
  \<open>github.com/docker/distribution/reference\<close>, which \<open>publish.go\<close> imports. The
  definitions below follow that package: its grammar

  \<^verbatim>\<open>reference        := name [ ":" tag ] [ "@" digest ]\<close>
  \<^verbatim>\<open>name             := [domain '/'] path-component ['/' path-component]*\<close>
  \<^verbatim>\<open>domain           := domain-component ['.' domain-component]* [':' port-number]\<close>
  \<^verbatim>\<open>domain-component := /([a-zA-Z0-9]|[a-zA-Z0-9][a-zA-Z0-9-]*[a-zA-Z0-9])/\<close>
  \<^verbatim>\<open>port-number      := /[0-9]+/\<close>
  \<^verbatim>\<open>path-component   := alpha-numeric [separator alpha-numeric]*\<close>
  \<^verbatim>\<open>alpha-numeric    := /[a-z0-9]+/\<close>
  \<^verbatim>\<open>separator        := /[_.]|__|[-]*/\<close>
  \<^verbatim>\<open>tag              := /[\w][\w.-]{0,127}/\<close>
  \<^verbatim>\<open>digest           := algorithm ":" hex, hex := /[0-9a-fA-F]{32,}/\<close>
  \<^verbatim>\<open>algorithm        := component [ /[+.-_]/ component ]*, component := /[A-Za-z][A-Za-z0-9]*/\<close>

  and the functions \<open>Parse\<close>, \<open>getBestReferenceType\<close>, \<open>ParseNormalizedNamed\<close> and
  \<open>splitDockerDomain\<close>. Each regular expression of the package is a recogniser on the
  whole string. Strings are byte strings and the case mapping is the one of ASCII.
  \<open>digest.Parse\<close> of package \<open>go-digest\<close> validates the digest of a reference that has
  one; it is the parameter \<open>dv\<close>, which returns the error, if any.
\<close>

definition is_digit :: "char \<Rightarrow> bool" where
  "is_digit c = (c \<in> set ''0123456789'')"

definition is_lower :: "char \<Rightarrow> bool" where
  "is_lower c = (c \<in> set ''abcdefghijklmnopqrstuvwxyz'')"

definition is_upper :: "char \<Rightarrow> bool" where
  "is_upper c = (c \<in> set ''ABCDEFGHIJKLMNOPQRSTUVWXYZ'')"

definition is_xdigit :: "char \<Rightarrow> bool" where
  "is_xdigit c = (c \<in> set ''0123456789abcdefABCDEF'')"

text \<open>\<open>[a-z0-9]\<close>, \<open>[a-zA-Z0-9]\<close> and \<open>\w\<close>.\<close>

definition is_alphaNumeric :: "char \<Rightarrow> bool" where
  "is_alphaNumeric c = (is_lower c \<or> is_digit c)"

definition is_alnum :: "char \<Rightarrow> bool" where
  "is_alnum c = (is_lower c \<or> is_upper c \<or> is_digit c)"

definition is_word :: "char \<Rightarrow> bool" where
  "is_word c = (is_alnum c \<or> c = CHR ''_'')"

text \<open>\<open>strings.ToLower\<close> on ASCII.\<close>

definition ToLower :: "string \<Rightarrow> string" where
  "ToLower s = map (\<lambda>c. if is_upper c then char_of ((of_char c :: nat) + 32) else c) s"

text \<open>The pieces of a string between the characters that satisfy \<open>p\<close>.\<close>

fun splitOnP :: "(char \<Rightarrow> bool) \<Rightarrow> string \<Rightarrow> string list" where
  "splitOnP p [] = [[]]"
| "splitOnP p (c # cs) =
     (if p c then [] # splitOnP p cs
      else (case splitOnP p cs of [] \<Rightarrow> [[c]] | x # xs \<Rightarrow> (c # x) # xs))"

definition splitOn :: "char \<Rightarrow> string \<Rightarrow> string list" where
  "splitOn sep s = splitOnP (\<lambda>c. c = sep) s"

text \<open>
  \<open>separatorRegexp\<close>, on the run of characters between two alpha-numeric runs of a path
  component: nothing, one period, one or two underscores, or dashes.
\<close>

definition separatorRegexp :: "string \<Rightarrow> bool" where
  "separatorRegexp sep =
     (sep = ''.'' \<or> sep = ''_'' \<or> sep = ''__'' \<or> list_all (\<lambda>c. c = CHR ''-'') sep)"

text \<open>
  \<open>nameComponentRegexp\<close>. The first argument is \<open>None\<close> before the first character and
  then the separator run read since the last alpha-numeric character.
\<close>

fun nameComponent_from :: "string option \<Rightarrow> string \<Rightarrow> bool" where
  "nameComponent_from st [] = (st = Some [])"
| "nameComponent_from st (c # cs) =
     (if is_alphaNumeric c then
        (case st of None \<Rightarrow> True | Some sep \<Rightarrow> separatorRegexp sep)
        \<and> nameComponent_from (Some []) cs
      else
        (case st of None \<Rightarrow> False | Some sep \<Rightarrow> nameComponent_from (Some (sep @ [c])) cs))"

definition nameComponentRegexp :: "string \<Rightarrow> bool" where
  "nameComponentRegexp s = nameComponent_from None s"

definition domainComponentRegexp :: "string \<Rightarrow> bool" where
  "domainComponentRegexp s =
     (s \<noteq> [] \<and> is_alnum (hd s) \<and> is_alnum (last s)
      \<and> list_all (\<lambda>c. is_alnum c \<or> c = CHR ''-'') s)"

definition DomainRegexp :: "string \<Rightarrow> bool" where
  "DomainRegexp s =
     (let host = takeWhile (\<lambda>c. c \<noteq> CHR '':'') s;
          port = dropWhile (\<lambda>c. c \<noteq> CHR '':'') s
      in list_all domainComponentRegexp (splitOn (CHR ''.'') host)
         \<and> (port = [] \<or> (tl port \<noteq> [] \<and> list_all is_digit (tl port))))"

definition TagRegexp :: "string \<Rightarrow> bool" where
  "TagRegexp t =
     (t \<noteq> [] \<and> is_word (hd t)
      \<and> list_all (\<lambda>c. is_word c \<or> c = CHR ''.'' \<or> c = CHR ''-'') (tl t)
      \<and> length (tl t) \<le> 127)"

definition digestAlgorithmComponent :: "string \<Rightarrow> bool" where
  "digestAlgorithmComponent s =
     (s \<noteq> [] \<and> (is_lower (hd s) \<or> is_upper (hd s)) \<and> list_all is_alnum (tl s))"

definition DigestRegexp :: "string \<Rightarrow> bool" where
  "DigestRegexp d =
     (let algorithm = takeWhile (\<lambda>c. c \<noteq> CHR '':'') d;
          rest = dropWhile (\<lambda>c. c \<noteq> CHR '':'') d
      in list_all digestAlgorithmComponent
           (splitOnP (\<lambda>c. c = CHR ''-'' \<or> c = CHR ''_'' \<or> c = CHR ''+'' \<or> c = CHR ''.'') algorithm)
         \<and> rest \<noteq> [] \<and> list_all is_xdigit (tl rest) \<and> 32 \<le> length (tl rest))"

text \<open>\<open>NameRegexp\<close>: path components, the first of which may be a domain instead.\<close>

definition NameRegexp :: "string \<Rightarrow> bool" where
  "NameRegexp s =
     (case splitOn (CHR ''/'') s of
        [] \<Rightarrow> False
      | [c] \<Rightarrow> nameComponentRegexp c
      | d # cs \<Rightarrow> (DomainRegexp d \<or> nameComponentRegexp d) \<and> list_all nameComponentRegexp cs)"

text \<open>
  The two groups of \<open>anchoredNameRegexp\<close> on a name: the optional domain group takes
  part whenever the first piece is a domain and the rest are path components.
\<close>

definition anchoredNameRegexp :: "string \<Rightarrow> repository" where
  "anchoredNameRegexp s =
     (case splitOn (CHR ''/'') s of
        d # c # cs \<Rightarrow>
          (if DomainRegexp d \<and> list_all nameComponentRegexp (c # cs)
           then \<lparr>domain = d, path = drop (length d + 1) s\<rparr>
           else \<lparr>domain = [], path = s\<rparr>)
      | _ \<Rightarrow> \<lparr>domain = [], path = s\<rparr>)"

text \<open>
  The text before the first \<open>@\<close>, and in it the name: everything up to the first \<open>:\<close>
  that comes after the last \<open>/\<close>.
\<close>

definition ref_body :: "string \<Rightarrow> string" where
  "ref_body s = takeWhile (\<lambda>c. c \<noteq> CHR ''@'') s"

definition last_piece :: "string \<Rightarrow> string" where
  "last_piece b = rev (takeWhile (\<lambda>c. c \<noteq> CHR ''/'') (rev b))"

definition name_part :: "string \<Rightarrow> string" where
  "name_part b =
     take (length b - length (last_piece b)) b @ takeWhile (\<lambda>c. c \<noteq> CHR '':'') (last_piece b)"

definition tag_part :: "string \<Rightarrow> string" where
  "tag_part b = dropWhile (\<lambda>c. c \<noteq> CHR '':'') (last_piece b)"

definition digest_part :: "string \<Rightarrow> string" where
  "digest_part s = dropWhile (\<lambda>c. c \<noteq> CHR ''@'') s"

text \<open>
  \<open>ReferenceRegexp.FindStringSubmatch\<close>: the groups name, tag and digest of a match.
  A tag holds neither \<open>:\<close> nor \<open>/\<close>, a name holds \<open>:\<close> only before a \<open>/\<close>, and \<open>@\<close>
  occurs in neither, so a string has one way at most to match; a group that takes no
  part is empty.
\<close>

definition ReferenceRegexp :: "string \<Rightarrow> (string \<times> string \<times> string) option" where
  "ReferenceRegexp s =
     (let b = ref_body s; t = tag_part b; d = digest_part s in
      if NameRegexp (name_part b) \<and> (t = [] \<or> TagRegexp (tl t)) \<and> (d = [] \<or> DigestRegexp (tl d))
      then Some (name_part b, tl t, tl d)
      else None)"

definition ErrReferenceInvalidFormat :: error where
  "ErrReferenceInvalidFormat = New ''invalid reference format''"

definition ErrNameEmpty :: error where
  "ErrNameEmpty = New ''repository name must have at least one component''"

definition ErrNameContainsUppercase :: error where
  "ErrNameContainsUppercase = New ''repository name must be lowercase''"

definition ErrNameTooLong :: error where
  "ErrNameTooLong = New ''repository name must not be more than 255 characters''"

definition getBestReferenceType :: "repository \<Rightarrow> string \<Rightarrow> string \<Rightarrow> Reference option" where
  "getBestReferenceType repo tag dig =
     (if repository_Name repo = [] then
        (if dig \<noteq> [] then Some (DigestReference dig) else None)
      else if tag = [] then
        (if dig \<noteq> [] then Some (NamedRef (CanonicalReference repo dig))
         else Some (NamedRef (NamedRepository repo)))
      else if dig = [] then Some (NamedRef (TaggedReference repo tag))
      else Some (NamedRef (FullReference repo tag dig)))"

definition reference_Parse :: "(string \<Rightarrow> error option) \<Rightarrow> string \<Rightarrow> error + Reference" where
  "reference_Parse dv s =
     (case ReferenceRegexp s of
        None \<Rightarrow>
          (if s = [] then Inl ErrNameEmpty
           else if ReferenceRegexp (ToLower s) \<noteq> None then Inl ErrNameContainsUppercase
           else Inl ErrReferenceInvalidFormat)
      | Some (name, tag, dig) \<Rightarrow>
          (if length name > 255 then Inl ErrNameTooLong
           else
             (case (if dig \<noteq> [] then dv dig else None) of
                Some err \<Rightarrow> Inl err
              | None \<Rightarrow>
                  (case getBestReferenceType (anchoredNameRegexp name) tag dig of
                     None \<Rightarrow> Inl ErrNameEmpty
                   | Some r \<Rightarrow> Inr r))))"

definition legacyDefaultDomain :: string where
  "legacyDefaultDomain = ''index.docker.io''"

definition defaultDomain :: string where
  "defaultDomain = ''docker.io''"

definition officialRepoName :: string where
  "officialRepoName = ''library''"

definition splitDockerDomain :: "string \<Rightarrow> string \<times> string" where
  "splitDockerDomain name =
     (let first = takeWhile (\<lambda>c. c \<noteq> CHR ''/'') name;
          (dom, remainder) =
            (if CHR ''/'' \<notin> set name
                \<or> (CHR ''.'' \<notin> set first \<and> CHR '':'' \<notin> set first \<and> first \<noteq> ''localhost'')
             then (defaultDomain, name)
             else (first, drop (length first + 1) name));
          dom' = (if dom = legacyDefaultDomain then defaultDomain else dom);
          remainder' =
            (if dom' = defaultDomain \<and> CHR ''/'' \<notin> set remainder
             then officialRepoName @ ''/'' @ remainder else remainder)
      in (dom', remainder'))"

text \<open>\<open>anchoredIdentifierRegexp\<close>: sixty-four lower-case hexadecimal digits.\<close>

definition anchoredIdentifierRegexp :: "string \<Rightarrow> bool" where
  "anchoredIdentifierRegexp s =
     (length s = 64
      \<and> list_all (\<lambda>c. c \<in> set ''0123456789abcdef'') s)"

definition reference_ParseNormalizedNamed ::
  "(string \<Rightarrow> error option) \<Rightarrow> string \<Rightarrow> error + Named" where
  "reference_ParseNormalizedNamed dv s =
     (if anchoredIdentifierRegexp s then
        Inl (New (''invalid repository name ('' @ s @ ''), cannot specify 64-byte hexadecimal strings''))
      else
        (let (dom, remainder) = splitDockerDomain s;
             remoteName = takeWhile (\<lambda>c. c \<noteq> CHR '':'') remainder
         in if ToLower remoteName \<noteq> remoteName then
              Inl (New ''invalid reference format: repository name must be lowercase'')
            else
              (case reference_Parse dv (dom @ ''/'' @ remainder) of
                 Inl err \<Rightarrow> Inl err
               | Inr (DigestReference d) \<Rightarrow> Inl (New (''reference '' @ d @ '' has no name''))
               | Inr (NamedRef named) \<Rightarrow> Inr named)))"

section \<open>Stages of a run\<close>

text \<open>
  Names for what the statements below talk about: the result and the call of the manifest
  load, the list of insecure registries, how far a run got (up to the invocation image
  push, up to the bundle descriptor, up to the relocation), and the calls and texts a run
  has made by then.
\<close>

abbreviation loadResult :: "('c, 'i, 'a, 's, 'b, 'r) env \<Rightarrow> PublishOptions \<Rightarrow> error + Manifest" where
  "loadResult env opts \<equiv>
     (if File opts \<noteq> [] then LoadManifestFrom env (File opts) else LoadManifest env)"

abbreviation loadCall :: "PublishOptions \<Rightarrow> ('b, 'r) call" where
  "loadCall opts \<equiv>
     (if File opts \<noteq> [] then Call_LoadManifestFrom (File opts) else Call_LoadManifest)"

abbreviation insecure :: "PublishOptions \<Rightarrow> Named \<Rightarrow> string list" where
  "insecure opts ref \<equiv> (if InsecureRegistry opts then [reference_Domain ref] else [])"

definition reaches_push ::
  "('c, 'i, 'a, 's, 'b, 'r) env \<Rightarrow> PublishOptions \<Rightarrow> Manifest \<Rightarrow> ('b, 'r) entry list \<Rightarrow> 'c \<Rightarrow> bool" where
  "reaches_push env opts m c3 cli =
     (loadResult env opts = Inr m
      \<and> EnsureBundleIsUpToDate env m (bundleFileOptions.truncate opts) = None
      \<and> getDockerClient env = (c3, Inr cli))"

definition reaches_descriptor ::
  "('c, 'i, 'a, 's, 'b, 'r) env \<Rightarrow> PublishOptions \<Rightarrow> Manifest \<Rightarrow> ('b, 'r) entry list \<Rightarrow> 'c
     \<Rightarrow> ('b, 'r) entry list \<Rightarrow> string list \<Rightarrow> string \<Rightarrow> string \<Rightarrow> bool" where
  "reaches_descriptor env opts m c3 cli c4 w digest taggedImage =
     (reaches_push env opts m c3 cli
      \<and> publishInvocationImage env m cli = (c4, w, Inr digest)
      \<and> rewriteImageWithDigest (Parse env) (Image m) digest = Inr taggedImage
      \<and> buildBundle env m taggedImage digest = None)"

definition reaches_relocation ::
  "('c, 'i, 'a, 's, 'b, 'r) env \<Rightarrow> PublishOptions \<Rightarrow> Manifest \<Rightarrow> ('b, 'r) entry list \<Rightarrow> 'c
     \<Rightarrow> ('b, 'r) entry list \<Rightarrow> string list \<Rightarrow> string \<Rightarrow> string \<Rightarrow> 'b \<Rightarrow> Named \<Rightarrow> bool" where
  "reaches_relocation env opts m c3 cli c4 w digest taggedImage bun ref =
     (reaches_descriptor env opts m c3 cli c4 w digest taggedImage
      \<and> ParseReader env (fst (ReadFile env ''cnab/bundle.json'')) = Inr bun
      \<and> BundleTag m \<noteq> []
      \<and> parseOCIReference (ParseNormalizedNamed env) (BundleTag m) = Inr ref)"

abbreviation calls_client :: "PublishOptions \<Rightarrow> ('b, 'r) entry list \<Rightarrow> ('b, 'r) entry list" where
  "calls_client opts c3 \<equiv> [(loadCall opts, None), (Call_EnsureBundleIsUpToDate, None)] @ c3"

abbreviation calls_pin ::
  "('c, 'i, 'a, 's, 'b, 'r) env \<Rightarrow> PublishOptions \<Rightarrow> Manifest \<Rightarrow> ('b, 'r) entry list
     \<Rightarrow> ('b, 'r) entry list \<Rightarrow> ('b, 'r) entry list" where
  "calls_pin env opts m c3 c4 \<equiv>
     calls_client opts c3 @ c4 @ [(Call_Parse (Image m), errOf (Parse env (Image m)))]"

abbreviation calls_read ::
  "('c, 'i, 'a, 's, 'b, 'r) env \<Rightarrow> PublishOptions \<Rightarrow> Manifest \<Rightarrow> ('b, 'r) entry list
     \<Rightarrow> ('b, 'r) entry list \<Rightarrow> string \<Rightarrow> string \<Rightarrow> ('b, 'r) entry list" where
  "calls_read env opts m c3 c4 taggedImage digest \<equiv>
     calls_pin env opts m c3 c4
       @ [(Call_buildBundle taggedImage digest, None),
          (Call_ReadFile ''cnab/bundle.json'', snd (ReadFile env ''cnab/bundle.json''))]"

abbreviation calls_resolver ::
  "('c, 'i, 'a, 's, 'b, 'r) env \<Rightarrow> PublishOptions \<Rightarrow> Manifest \<Rightarrow> ('b, 'r) entry list
     \<Rightarrow> ('b, 'r) entry list \<Rightarrow> string \<Rightarrow> string \<Rightarrow> Named \<Rightarrow> ('b, 'r) entry list" where
  "calls_resolver env opts m c3 c4 taggedImage digest ref \<equiv>
     calls_read env opts m c3 c4 taggedImage digest
       @ [(Call_ParseReader, None), (Call_ParseNormalizedNamed (BundleTag m), None),
          (Call_NewResolverConfig (insecure opts ref), None)]"

abbreviation out_bundle :: "string list \<Rightarrow> string list" where
  "out_bundle w \<equiv>
     ''Pushing CNAB invocation image...\<newline>'' # w @ [''\<newline>Generating CNAB bundle.json...\<newline>'']"


section \<open>Example collaborators\<close>

text \<open>
  One concrete set of collaborators, on which the theorems are instantiated: the manifest
  names the invocation image \<open>myapp:v1\<close> and the bundle tag
  \<open>registry.example.com/bundles/myapp:v1\<close>, every call succeeds, the registry reports
  a digest for the image and one for the bundle. The digest validator accepts the
  \<open>sha256\<close> digests of sixty-four characters.
\<close>

definition example_digest_Parse :: "string \<Rightarrow> error option" where
  "example_digest_Parse d =
     (if take 7 d = ''sha256:'' \<and> length d = 71 then None
      else Some (New ''invalid checksum digest format''))"

definition example_image_digest :: string where
  "example_image_digest = ''sha256:aaaaaaaaaaaaaaaaaaaaaaaaaaaaaaaaaaaaaaaaaaaaaaaaaaaaaaaaaaaaaaaa''"

definition example_bundle_digest :: string where
  "example_bundle_digest = ''sha256:bbbbbbbbbbbbbbbbbbbbbbbbbbbbbbbbbbbbbbbbbbbbbbbbbbbbbbbbbbbbbbbb''"

definition example_manifest :: Manifest where
  "example_manifest = \<lparr>Image = ''myapp:v1'', BundleTag = ''registry.example.com/bundles/myapp:v1''\<rparr>"

definition example_opts :: PublishOptions where
  "example_opts = \<lparr>File = ''porter.yaml'', InsecureRegistry = True\<rparr>"

definition example_env :: "(nat, string, string, string list, string, string list) env" where
  "example_env =
     \<lparr>LoadManifestFrom = (\<lambda>f. Inr example_manifest),
      LoadManifest = Inr example_manifest,
      EnsureBundleIsUpToDate = (\<lambda>m b. None),
      NewDockerCli = Inr 0,
      Initialize = (\<lambda>cli. None),
      ParseNormalizedNamed = reference_ParseNormalizedNamed example_digest_Parse,
      Parse = reference_Parse example_digest_Parse,
      ParseRepositoryInfo = (\<lambda>ref. Inr (reference_Domain ref)),
      ResolveAuthConfig = (\<lambda>cli index. ''user:secret''),
      EncodeAuthToBase64 = (\<lambda>a. Inr ''dXNlcjpzZWNyZXQ=''),
      ImagePush = (\<lambda>cli img auth. Inr [''v1: digest: sha256:aaaa size: 528'']),
      DisplayJSONMessagesStream = (\<lambda>s. (s, None)),
      DistributionInspect = (\<lambda>cli img auth. Inr example_image_digest),
      buildBundle = (\<lambda>m img digest. None),
      ReadFile = (\<lambda>f. (''bundle descriptor'', None)),
      ParseReader = (\<lambda>b. Inr b),
      NewResolverConfigFromDockerConfigFile = (\<lambda>regs. \<lparr>Resolver = regs\<rparr>),
      FixupBundle = (\<lambda>b ref rc. ([], b, None)),
      Push = (\<lambda>b ref r. Inr example_bundle_digest),
      Sprintf_q = (\<lambda>s. [CHR 0x22] @ s @ [CHR 0x22])\<rparr>"

section \<open>Runs of the pipeline, case by case\<close>

text \<open>
  Every run of \<open>Publish\<close> ends in one of twelve ways: at the stage that failed, or
  published. Each case fixes the results of the calls made so far and the run.
\<close>

lemma Publish_cases:
  obtains
    (load_failed) e where
      "loadResult env opts = Inl e"
      "Publish env opts = \<lparr>calls = [(loadCall opts, Some e)], out = [], result = Some e\<rparr>"
  | (ensure_failed) m e where
      "loadResult env opts = Inr m"
      "EnsureBundleIsUpToDate env m (bundleFileOptions.truncate opts) = Some e"
      "Publish env opts = \<lparr>calls = [(loadCall opts, None), (Call_EnsureBundleIsUpToDate, Some e)], out = [], result = Some e\<rparr>"
  | (client_failed) m c3 e where
      "loadResult env opts = Inr m"
      "EnsureBundleIsUpToDate env m (bundleFileOptions.truncate opts) = None"
      "getDockerClient env = (c3, Inl e)"
      "Publish env opts = \<lparr>calls = calls_client opts c3, out = [], result = Some e\<rparr>"
  | (push_failed) m c3 cli c4 w e where
      "reaches_push env opts m c3 cli"
      "publishInvocationImage env m cli = (c4, w, Inl e)"
      "Publish env opts = \<lparr>calls = calls_client opts c3 @ c4, out = ''Pushing CNAB invocation image...\<newline>'' # w, result = Some (Wrap e ''unable to push CNAB invocation image'')\<rparr>"
  | (pin_failed) m c3 cli c4 w digest e where
      "reaches_push env opts m c3 cli"
      "publishInvocationImage env m cli = (c4, w, Inr digest)"
      "rewriteImageWithDigest (Parse env) (Image m) digest = Inl e"
      "Publish env opts = \<lparr>calls = calls_pin env opts m c3 c4, out = ''Pushing CNAB invocation image...\<newline>'' # w, result = Some (Wrap e ''unable to update invocation image reference: %s'')\<rparr>"
  | (build_failed) m c3 cli c4 w digest taggedImage e where
      "reaches_push env opts m c3 cli"
      "publishInvocationImage env m cli = (c4, w, Inr digest)"
      "rewriteImageWithDigest (Parse env) (Image m) digest = Inr taggedImage"
      "buildBundle env m taggedImage digest = Some e"
      "Publish env opts = \<lparr>calls = calls_pin env opts m c3 c4 @ [(Call_buildBundle taggedImage digest, Some e)], out = out_bundle w, result = Some (Wrap e ''unable to generate CNAB bundle.json'')\<rparr>"
  | (descriptor_failed) m c3 cli c4 w digest taggedImage e where
      "reaches_descriptor env opts m c3 cli c4 w digest taggedImage"
      "ParseReader env (fst (ReadFile env ''cnab/bundle.json'')) = Inl e"
      "Publish env opts = \<lparr>calls = calls_read env opts m c3 c4 taggedImage digest @ [(Call_ParseReader, Some e)], out = out_bundle w, result = Some (Wrap e ''unable to load CNAB bundle'')\<rparr>"
  | (tag_missing) m c3 cli c4 w digest taggedImage bun where
      "reaches_descriptor env opts m c3 cli c4 w digest taggedImage"
      "ParseReader env (fst (ReadFile env ''cnab/bundle.json'')) = Inr bun"
      "BundleTag m = []"
      "Publish env opts = \<lparr>calls = calls_read env opts m c3 c4 taggedImage digest @ [(Call_ParseReader, None)], out = out_bundle w, result = Some (New ''porter.yaml must specify a `tag` value for this bundle'')\<rparr>"
  | (tag_invalid) m c3 cli c4 w digest taggedImage bun e where
      "reaches_descriptor env opts m c3 cli c4 w digest taggedImage"
      "ParseReader env (fst (ReadFile env ''cnab/bundle.json'')) = Inr bun"
      "BundleTag m \<noteq> []"
      "parseOCIReference (ParseNormalizedNamed env) (BundleTag m) = Inl e"
      "Publish env opts = \<lparr>calls = calls_read env opts m c3 c4 taggedImage digest @ [(Call_ParseReader, None), (Call_ParseNormalizedNamed (BundleTag m), Some e)], out = out_bundle w, result = Some (Wrap e ''invalid bundle tag reference. expected value is REGISTRY/bundle:tag'')\<rparr>"
  | (relocation_failed) m c3 cli c4 w digest taggedImage bun ref evs bun' e where
      "reaches_relocation env opts m c3 cli c4 w digest taggedImage bun ref"
      "FixupBundle env bun ref (createResolver env (insecure opts ref)) = (evs, bun', Some e)"
      "Publish env opts = \<lparr>calls = calls_resolver env opts m c3 c4 taggedImage digest ref @ [(Call_FixupBundle bun ref (createResolver env (insecure opts ref)), Some e)], out = foldl displayEvent (out_bundle w) evs, result = Some e\<rparr>"
  | (final_push_failed) m c3 cli c4 w digest taggedImage bun ref evs bun' e where
      "reaches_relocation env opts m c3 cli c4 w digest taggedImage bun ref"
      "FixupBundle env bun ref (createResolver env (insecure opts ref)) = (evs, bun', None)"
      "Push env bun' ref (Resolver (createResolver env (insecure opts ref))) = Inl e"
      "Publish env opts = \<lparr>calls = calls_resolver env opts m c3 c4 taggedImage digest ref @ [(Call_FixupBundle bun ref (createResolver env (insecure opts ref)), None), (Call_Push bun' ref (Resolver (createResolver env (insecure opts ref))), Some e)], out = foldl displayEvent (out_bundle w) evs, result = Some e\<rparr>"
  | (published) m c3 cli c4 w digest taggedImage bun ref evs bun' d where
      "reaches_relocation env opts m c3 cli c4 w digest taggedImage bun ref"
      "FixupBundle env bun ref (createResolver env (insecure opts ref)) = (evs, bun', None)"
      "Push env bun' ref (Resolver (createResolver env (insecure opts ref))) = Inr d"
      "Publish env opts = \<lparr>calls = calls_resolver env opts m c3 c4 taggedImage digest ref @ [(Call_FixupBundle bun ref (createResolver env (insecure opts ref)), None), (Call_Push bun' ref (Resolver (createResolver env (insecure opts ref))), None)], out = foldl displayEvent (out_bundle w) evs @ [''Bundle tag '' @ Named_String ref @ '' pushed successfully, with digest '' @ Sprintf_q env d @ ''\<newline>''], result = None\<rparr>"
proof (cases "loadResult env opts")
  case (Inl e)
  show thesis
    by (rule load_failed[OF Inl]) (use Inl in \<open>simp add: Publish_def Let_def split del: if_split cong: if_cong\<close>)
next
  case r1: (Inr m)
  show thesis
  proof (cases "EnsureBundleIsUpToDate env m (bundleFileOptions.truncate opts)")
    case (Some e)
    show thesis
      by (rule ensure_failed[OF r1 Some]) (use r1 Some in \<open>simp add: Publish_def Let_def split del: if_split cong: if_cong\<close>)
  next
    case r2: None
    obtain c3 r where r3: "getDockerClient env = (c3, r)"
      by (cases "getDockerClient env")
    show thesis
    proof (cases r)
      case (Inl e)
      show thesis
        by (rule client_failed[OF r1 r2 r3[unfolded Inl]])
           (use r1 r2 r3 Inl in \<open>simp add: Publish_def Let_def split del: if_split cong: if_cong\<close>)
    next
      case (Inr cli)
      note r3 = r3[unfolded Inr]
      have rp: "reaches_push env opts m c3 cli"
        using r1 r2 r3 by (simp add: reaches_push_def)
      obtain c4 w r' where r4: "publishInvocationImage env m cli = (c4, w, r')"
        by (cases "publishInvocationImage env m cli")
      show thesis
      proof (cases r')
        case (Inl e)
        show thesis
          by (rule push_failed[OF rp r4[unfolded Inl]])
             (use r1 r2 r3 r4 Inl in \<open>simp add: Publish_def Let_def split del: if_split cong: if_cong\<close>)
      next
        case (Inr digest)
        note r4 = r4[unfolded Inr]
        show thesis
        proof (cases "rewriteImageWithDigest (Parse env) (Image m) digest")
          case (Inl e)
          show thesis
            by (rule pin_failed[OF rp r4 Inl])
               (use r1 r2 r3 r4 Inl in \<open>simp add: Publish_def Let_def split del: if_split cong: if_cong\<close>)
        next
          case r5: (Inr taggedImage)
          show thesis
          proof (cases "buildBundle env m taggedImage digest")
            case (Some e)
            show thesis
              by (rule build_failed[OF rp r4 r5 Some])
                 (use r1 r2 r3 r4 r5 Some in \<open>simp add: Publish_def Let_def split del: if_split cong: if_cong\<close>)
          next
            case r6: None
            have rd: "reaches_descriptor env opts m c3 cli c4 w digest taggedImage"
              using rp r4 r5 r6 by (simp add: reaches_descriptor_def)
            show thesis
            proof (cases "ParseReader env (fst (ReadFile env ''cnab/bundle.json''))")
              case (Inl e)
              show thesis
                by (rule descriptor_failed[OF rd Inl])
                   (use r1 r2 r3 r4 r5 r6 Inl in \<open>simp add: Publish_def Let_def split del: if_split cong: if_cong\<close>)
            next
              case r7: (Inr bun)
              show thesis
              proof (cases "BundleTag m = []")
                case True
                show thesis
                  by (rule tag_missing[OF rd r7 True])
                     (use r1 r2 r3 r4 r5 r6 r7 True in \<open>simp add: Publish_def Let_def split del: if_split cong: if_cong\<close>)
              next
                case r8: False
                show thesis
                proof (cases "parseOCIReference (ParseNormalizedNamed env) (BundleTag m)")
                  case (Inl e)
                  show thesis
                    by (rule tag_invalid[OF rd r7 r8 Inl])
                       (use r1 r2 r3 r4 r5 r6 r7 r8 Inl in \<open>simp add: Publish_def Let_def split del: if_split cong: if_cong\<close>)
                next
                  case r9: (Inr ref)
                  have rr: "reaches_relocation env opts m c3 cli c4 w digest taggedImage bun ref"
                    using rd r7 r8 r9 by (simp add: reaches_relocation_def)
                  obtain evs bun' eo where
                    r10: "FixupBundle env bun ref (createResolver env (insecure opts ref)) = (evs, bun', eo)"
                    by (cases "FixupBundle env bun ref (createResolver env (insecure opts ref))")
                  show thesis
                  proof (cases eo)
                    case (Some e)
                    show thesis
                      by (rule relocation_failed[OF rr r10[unfolded Some]])
                         (use r1 r2 r3 r4 r5 r6 r7 r8 r9 r10 Some in \<open>simp add: Publish_def Let_def split del: if_split cong: if_cong\<close>)
                  next
                    case None
                    note r10 = r10[unfolded None]
                    show thesis
                    proof (cases "Push env bun' ref (Resolver (createResolver env (insecure opts ref)))")
                      case (Inl e)
                      show thesis
                        by (rule final_push_failed[OF rr r10 Inl])
                           (use r1 r2 r3 r4 r5 r6 r7 r8 r9 r10 Inl in \<open>simp add: Publish_def Let_def split del: if_split cong: if_cong\<close>)
                    next
                      case (Inr d)
                      show thesis
                        by (rule published[OF rr r10 Inr])
                           (use r1 r2 r3 r4 r5 r6 r7 r8 r9 r10 Inr in \<open>simp add: Publish_def Let_def split del: if_split cong: if_cong\<close>)
                    qed
                  qed
                qed
              qed
            qed
          qed
        qed
      qed
    qed
  qed
qed

text \<open>What the client set-up and the push step leave in the list of calls.\<close>

lemma getDockerClient_failed:
  assumes "getDockerClient env = (c3, Inl err)"
  shows "c3 \<noteq> [] \<and> ((\<exists>e. last c3 = (Call_NewDockerCli, Some e)
                            \<and> err = Wrap e ''could not create new docker client'')
                     \<or> last c3 = (Call_Initialize, Some err))"
  using assms unfolding getDockerClient_def
  by (simp split: sum.splits option.splits; auto)

lemma getDockerClient_calls:
  assumes "getDockerClient env = (c3, r)"
  shows "\<forall>c\<in>set c3. fst c = Call_NewDockerCli \<or> fst c = Call_Initialize"
  using assms unfolding getDockerClient_def
  by (simp split: sum.splits option.splits; auto)

lemma push_calls:
  assumes "publishInvocationImage env m cli = (cs, w, r)"
  shows "\<forall>c\<in>set cs. fst c = Call_ParseNormalizedNamed (Image m) \<or> fst c = Call_ParseRepositoryInfo
           \<or> fst c = Call_ResolveAuthConfig \<or> fst c = Call_EncodeAuthToBase64
           \<or> (\<exists>auth. fst c = Call_ImagePush (Image m) auth) \<or> fst c = Call_DisplayJSONMessagesStream
           \<or> (\<exists>auth. fst c = Call_DistributionInspect (Image m) auth)"
  using assms unfolding publishInvocationImage_def Let_def
  by (simp split: sum.splits prod.splits option.splits if_splits; auto)

lemma push_stream_failed:
  assumes "publishInvocationImage env m cli = (cs, w, r)"
    and "(Call_DisplayJSONMessagesStream, Some e) \<in> set cs"
  shows "r = Inl (Wrap e (if HasPrefix (err_Error e) ''denied''
                          then ''docker push authentication failed''
                          else ''failed to stream docker push stdout''))
         \<and> last cs = (Call_DisplayJSONMessagesStream, Some e)"
  using assms unfolding publishInvocationImage_def Let_def
  by (simp split: sum.splits prod.splits option.splits if_splits; auto)

lemma push_succeeded:
  assumes "publishInvocationImage env m cli = (cs, w, Inr digest)"
  shows "\<exists>auth. (Call_ImagePush (Image m) auth, None) \<in> set cs
               \<and> DistributionInspect env cli (Image m) auth = Inr digest
               \<and> last cs = (Call_DistributionInspect (Image m) auth, None)"
  using assms unfolding publishInvocationImage_def Let_def
  by (simp split: sum.splits prod.splits option.splits if_splits; auto)

lemma push_failed_last:
  assumes "publishInvocationImage env m cli = (cs, w, Inl err)"
  shows "cs \<noteq> [] \<and>
         (case last cs of
            (c, None) \<Rightarrow> False
          | (c, Some e) \<Rightarrow>
           (case c of
              Call_ParseNormalizedNamed s \<Rightarrow> err = e
            | Call_ParseRepositoryInfo \<Rightarrow> err = e
            | Call_EncodeAuthToBase64 \<Rightarrow> err = e
            | Call_ImagePush img auth \<Rightarrow> err = Wrap e ''docker push failed''
            | Call_DisplayJSONMessagesStream \<Rightarrow>
                err = Wrap e (if HasPrefix (err_Error e) ''denied''
                              then ''docker push authentication failed''
                              else ''failed to stream docker push stdout'')
            | Call_DistributionInspect img auth \<Rightarrow> err = Wrap e ''unable to inspect docker image''
            | _ \<Rightarrow> False))"
  using assms unfolding publishInvocationImage_def Let_def
  by (simp split: sum.splits prod.splits option.splits if_splits; auto)

lemma push_inspect_failed:
  assumes "publishInvocationImage env m cli = (cs, w, r)"
    and "(Call_DistributionInspect (Image m) auth, Some e) \<in> set cs"
  shows "DistributionInspect env cli (Image m) auth = Inl e
         \<and> r = Inl (Wrap e ''unable to inspect docker image'')"
  using assms unfolding publishInvocationImage_def Let_def
  by (simp split: sum.splits prod.splits option.splits if_splits; auto)

section \<open>The progress display\<close>

text \<open>
  C9. Each fixup event handed to the progress display writes exactly one text: the
  start line for a copy-start event, the failure line (with the error's message) for a
  copy-end event that carries an error, the completion line for a copy-end event
  without error. An event of any other type writes nothing.
\<close>

theorem displayEvent_lines:
  "(EventType ev = FixupEventTypeCopyImageStart \<longrightarrow>
      displayEvent Out ev = Out @ [''Starting to copy image '' @ SourceImage ev @ ''...\<newline>''])
   \<and> (EventType ev = FixupEventTypeCopyImageEnd \<and> Error ev = Some err \<longrightarrow>
      displayEvent Out ev =
        Out @ [''Failed to copy image '' @ SourceImage ev @ '': '' @ err_Error err @ ''\<newline>''])
   \<and> (EventType ev = FixupEventTypeCopyImageEnd \<and> Error ev = None \<longrightarrow>
      displayEvent Out ev = Out @ [''Completed image '' @ SourceImage ev @ '' copy\<newline>''])
   \<and> (EventType ev \<noteq> FixupEventTypeCopyImageStart \<and> EventType ev \<noteq> FixupEventTypeCopyImageEnd \<longrightarrow>
      displayEvent Out ev = Out)"
  by (simp add: displayEvent_def FixupEventTypeCopyImageStart_def FixupEventTypeCopyImageEnd_def)

theorem displayEvent_lines_witness:
  "displayEvent [''x''] \<lparr>SourceImage = ''nginx:1.17'', EventType = ''CopyImageStart'', Error = None\<rparr>
     = [''x'', ''Starting to copy image nginx:1.17...\<newline>'']
   \<and> displayEvent [''x'']
        \<lparr>SourceImage = ''nginx:1.17'', EventType = ''CopyImageEnd'', Error = Some (New ''timeout'')\<rparr>
     = [''x'', ''Failed to copy image nginx:1.17: timeout\<newline>'']
   \<and> displayEvent [''x''] \<lparr>SourceImage = ''nginx:1.17'', EventType = ''CopyImageEnd'', Error = None\<rparr>
     = [''x'', ''Completed image nginx:1.17 copy\<newline>'']
   \<and> displayEvent [''x''] \<lparr>SourceImage = ''nginx:1.17'', EventType = ''Progress'', Error = None\<rparr>
     = [''x'']"
  using
    displayEvent_lines [of "\<lparr>SourceImage = ''nginx:1.17'', EventType = ''CopyImageStart'', Error = None\<rparr>"
      "[''x'']" "New ''timeout''"]
    displayEvent_lines [of "\<lparr>SourceImage = ''nginx:1.17'', EventType = ''CopyImageEnd'',
      Error = Some (New ''timeout'')\<rparr>" "[''x'']" "New ''timeout''"]
    displayEvent_lines [of "\<lparr>SourceImage = ''nginx:1.17'', EventType = ''CopyImageEnd'', Error = None\<rparr>"
      "[''x'']" "New ''timeout''"]
    displayEvent_lines [of "\<lparr>SourceImage = ''nginx:1.17'', EventType = ''Progress'', Error = None\<rparr>"
      "[''x'']" "New ''timeout''"]
  by (simp add: FixupEventTypeCopyImageStart_def FixupEventTypeCopyImageEnd_def)

section \<open>The digest rewriter\<close>

text \<open>
  C10. The digest rewriter does not look at its digest argument: whenever the image
  string parses as a named reference, it succeeds for every digest string whatsoever and
  returns the name of that reference, \<open>@\<close> and the digest string as given. The result
  need not be a reference the parser accepts: with the empty digest it is \<open>myapp@\<close>,
  which the grammar of the reference package rejects.
\<close>

theorem rewriteImageWithDigest_any_digest:
  "(parse InvocationImage = Inr (NamedRef named) \<longrightarrow>
      rewriteImageWithDigest parse InvocationImage digest = Inr (Name named @ ''@'' @ digest))
   \<and> rewriteImageWithDigest (reference_Parse dv) ''myapp:v1'' [] = Inr ''myapp@''
   \<and> parseOCIReference (reference_ParseNormalizedNamed dv) ''myapp@'' = Inl ErrReferenceInvalidFormat"
proof -
  have a: "parse InvocationImage = Inr (NamedRef named) \<longrightarrow>
      rewriteImageWithDigest parse InvocationImage digest = Inr (Name named @ ''@'' @ digest)"
    by (simp add: rewriteImageWithDigest_def)
  have b: "reference_Parse dv ''myapp:v1''
             = Inr (NamedRef (TaggedReference \<lparr>domain = [], path = ''myapp''\<rparr> ''v1''))"
    by code_simp
  have c: "rewriteImageWithDigest (reference_Parse dv) ''myapp:v1'' [] = Inr ''myapp@''"
    by (simp add: rewriteImageWithDigest_def b Name_def repository_Name_def)
  have d: "parseOCIReference (reference_ParseNormalizedNamed dv) ''myapp@'' = Inl ErrReferenceInvalidFormat"
    by code_simp
  from a c d show ?thesis by blast
qed

theorem rewriteImageWithDigest_any_digest_witness:
  "reference_Parse example_digest_Parse ''localhost:5000/myapp:v1''
     = Inr (NamedRef (TaggedReference \<lparr>domain = ''localhost:5000'', path = ''myapp''\<rparr> ''v1''))
   \<and> rewriteImageWithDigest (reference_Parse example_digest_Parse) ''localhost:5000/myapp:v1''
        ''not a digest'' = Inr ''localhost:5000/myapp@not a digest''"
proof -
  have h: "reference_Parse example_digest_Parse ''localhost:5000/myapp:v1''
     = Inr (NamedRef (TaggedReference \<lparr>domain = ''localhost:5000'', path = ''myapp''\<rparr> ''v1''))"
    by code_simp
  have n: "Name (TaggedReference \<lparr>domain = ''localhost:5000'', path = ''myapp''\<rparr> ''v1'')
             = ''localhost:5000/myapp''"
    by (simp add: Name_def repository_Name_def)
  from rewriteImageWithDigest_any_digest [of "reference_Parse example_digest_Parse"
      "''localhost:5000/myapp:v1''" "TaggedReference \<lparr>domain = ''localhost:5000'', path = ''myapp''\<rparr> ''v1''"
      "''not a digest''" example_digest_Parse] h n
  show ?thesis by simp
qed

section \<open>The invocation image push\<close>

text \<open>
  C7. When the push step succeeds, the digest it returns is the one the registry
  reported to the distribution inspection of the pushed image, which is the last call of
  the step; nothing is computed from it. When that inspection fails, so does the push
  step, with the inspection's error wrapped.
\<close>

theorem publishInvocationImage_digest_from_inspect:
  assumes "publishInvocationImage env m cli = (cs, w, r)"
  shows "(\<forall>digest. r = Inr digest \<longrightarrow>
            (\<exists>auth. DistributionInspect env cli (Image m) auth = Inr digest
                   \<and> last cs = (Call_DistributionInspect (Image m) auth, None)))
       \<and> (\<forall>auth e. (Call_DistributionInspect (Image m) auth, Some e) \<in> set cs \<longrightarrow>
            DistributionInspect env cli (Image m) auth = Inl e
            \<and> r = Inl (Wrap e ''unable to inspect docker image''))"
proof (intro conjI allI impI)
  fix digest assume "r = Inr digest"
  with assms push_succeeded [of env m cli cs w digest]
  show "\<exists>auth. DistributionInspect env cli (Image m) auth = Inr digest
               \<and> last cs = (Call_DistributionInspect (Image m) auth, None)"
    by blast
next
  fix auth e assume "(Call_DistributionInspect (Image m) auth, Some e) \<in> set cs"
  with assms push_inspect_failed [of env m cli cs w r auth e]
  show "DistributionInspect env cli (Image m) auth = Inl e"
    and "r = Inl (Wrap e ''unable to inspect docker image'')"
    by blast+
qed

theorem publishInvocationImage_digest_from_inspect_witness:
  "publishInvocationImage example_env example_manifest 0
     = ([(Call_ParseNormalizedNamed ''myapp:v1'', None), (Call_ParseRepositoryInfo, None),
         (Call_ResolveAuthConfig, None), (Call_EncodeAuthToBase64, None),
         (Call_ImagePush ''myapp:v1'' ''dXNlcjpzZWNyZXQ='', None),
         (Call_DisplayJSONMessagesStream, None),
         (Call_DistributionInspect ''myapp:v1'' ''dXNlcjpzZWNyZXQ='', None)],
        [''v1: digest: sha256:aaaa size: 528''], Inr example_image_digest)
   \<and> DistributionInspect example_env 0 ''myapp:v1'' ''dXNlcjpzZWNyZXQ='' = Inr example_image_digest
   \<and> publishInvocationImage
        (example_env\<lparr>DistributionInspect := \<lambda>cli img auth. Inl (New ''manifest unknown'')\<rparr>)
        example_manifest 0
     = ([(Call_ParseNormalizedNamed ''myapp:v1'', None), (Call_ParseRepositoryInfo, None),
         (Call_ResolveAuthConfig, None), (Call_EncodeAuthToBase64, None),
         (Call_ImagePush ''myapp:v1'' ''dXNlcjpzZWNyZXQ='', None),
         (Call_DisplayJSONMessagesStream, None),
         (Call_DistributionInspect ''myapp:v1'' ''dXNlcjpzZWNyZXQ='', Some (New ''manifest unknown''))],
        [''v1: digest: sha256:aaaa size: 528''],
        Inl (Wrap (New ''manifest unknown'') ''unable to inspect docker image''))"
  (is "?run1 \<and> ?inspect \<and> ?run2")
proof -
  have img: "Image example_manifest = ''myapp:v1''"
    by (simp add: example_manifest_def)
  have run1: ?run1
    by code_simp
  have run2: ?run2
    by code_simp
  from publishInvocationImage_digest_from_inspect [OF run1]
  have 1: ?inspect
    by (simp add: img)
  from publishInvocationImage_digest_from_inspect [OF run2]
  have "DistributionInspect
          (example_env\<lparr>DistributionInspect := \<lambda>cli img auth. Inl (New ''manifest unknown'')\<rparr>)
          0 ''myapp:v1'' ''dXNlcjpzZWNyZXQ='' = Inl (New ''manifest unknown'')"
    by (simp add: img)
  with run1 run2 1 show ?thesis
    by blast
qed

lemma reaches_descriptorD:
  assumes "reaches_descriptor env opts m c3 cli c4 w digest taggedImage"
  shows "loadResult env opts = Inr m" and "getDockerClient env = (c3, Inr cli)"
    and "publishInvocationImage env m cli = (c4, w, Inr digest)"
    and "rewriteImageWithDigest (Parse env) (Image m) digest = Inr taggedImage"
  using assms by (simp_all add: reaches_descriptor_def reaches_push_def)

lemma reaches_relocationD:
  assumes "reaches_relocation env opts m c3 cli c4 w digest taggedImage bun ref"
  shows "loadResult env opts = Inr m" and "getDockerClient env = (c3, Inr cli)"
    and "publishInvocationImage env m cli = (c4, w, Inr digest)"
    and "BundleTag m \<noteq> []"
    and "parseOCIReference (ParseNormalizedNamed env) (BundleTag m) = Inr ref"
  using assms by (simp_all add: reaches_relocation_def reaches_descriptor_def reaches_push_def)

lemma client_calls_no_stream:
  assumes "getDockerClient env = (c3, r)"
  shows "(Call_DisplayJSONMessagesStream, x) \<notin> set c3"
  using getDockerClient_calls [OF assms] by fastforce

lemma push_succeeded_no_stream_error:
  assumes "publishInvocationImage env m cli = (c4, w, Inr digest)"
  shows "(Call_DisplayJSONMessagesStream, Some e) \<notin> set c4"
  using push_stream_failed [OF assms] by blast

lemma client_calls_kinds:
  assumes "getDockerClient env = (c3, r)" and "c \<in> set c3"
  shows "\<not> is_FixupBundle (fst c) \<and> \<not> is_Push (fst c) \<and> \<not> is_NewResolverConfig (fst c)"
  using getDockerClient_calls [OF assms(1)] assms(2) by fastforce

lemma push_calls_kinds:
  assumes "publishInvocationImage env m cli = (c4, w, r)" and "c \<in> set c4"
  shows "\<not> is_FixupBundle (fst c) \<and> \<not> is_Push (fst c) \<and> \<not> is_NewResolverConfig (fst c)"
  using push_calls [OF assms(1)] assms(2) by fastforce

text \<open>
  C5. When the progress stream of the invocation image push ends in an error whose
  message starts with \<open>denied\<close>, the push step returns that error wrapped as an
  authentication failure, which is not the message of a stream failure; the run returns
  it wrapped once more, the stream is the last call made, and neither the relocation nor
  the final push takes place.
\<close>

theorem denied_push_aborts_before_relocation:
  assumes "(Call_DisplayJSONMessagesStream, Some e) \<in> set (calls (Publish env opts))"
    and "HasPrefix (err_Error e) ''denied''"
  shows "result (Publish env opts)
           = Some (Wrap (Wrap e ''docker push authentication failed'')
                    ''unable to push CNAB invocation image'')
     \<and> last (calls (Publish env opts)) = (Call_DisplayJSONMessagesStream, Some e)
     \<and> (\<forall>c\<in>set (calls (Publish env opts)). \<not> is_FixupBundle (fst c) \<and> \<not> is_Push (fst c))
     \<and> (\<exists>m cli cs w. publishInvocationImage env m cli
           = (cs, w, Inl (Wrap e ''docker push authentication failed'')))"
proof (cases env opts rule: Publish_cases)
  case (load_failed e')
  with assms(1) show ?thesis by (simp split: if_splits)
next
  case (ensure_failed m e')
  with assms(1) show ?thesis by (simp split: if_splits)
next
  case (client_failed m c3 e')
  with assms(1) client_calls_no_stream [OF client_failed(3)] show ?thesis
    by (simp split: if_splits)
next
  case (push_failed m c3 cli c4 w e')
  from push_failed(1) have c3: "getDockerClient env = (c3, Inr cli)"
    by (simp add: reaches_push_def)
  from assms(1) push_failed(3) client_calls_no_stream [OF c3]
  have mem: "(Call_DisplayJSONMessagesStream, Some e) \<in> set c4"
    by (simp split: if_splits)
  from push_stream_failed [OF push_failed(2) mem] assms(2)
  have e': "e' = Wrap e ''docker push authentication failed''"
    and l: "last c4 = (Call_DisplayJSONMessagesStream, Some e)"
    by simp_all
  from mem have ne: "c4 \<noteq> []" by auto
  have k: "\<forall>c\<in>set (calls (Publish env opts)). \<not> is_FixupBundle (fst c) \<and> \<not> is_Push (fst c)"
    using push_failed(3) client_calls_kinds [OF c3] push_calls_kinds [OF push_failed(2)]
    by (auto split: if_splits)
  from push_failed(2) e' have "\<exists>m cli cs w. publishInvocationImage env m cli
           = (cs, w, Inl (Wrap e ''docker push authentication failed''))"
    by blast
  with k push_failed(3) e' l ne show ?thesis
    by simp
next
  case (pin_failed m c3 cli c4 w digest e')
  from pin_failed(1) have c3: "getDockerClient env = (c3, Inr cli)"
    by (simp add: reaches_push_def)
  from assms(1) pin_failed(4) client_calls_no_stream [OF c3]
    push_succeeded_no_stream_error [OF pin_failed(2)] show ?thesis
    by (simp split: if_splits)
next
  case (build_failed m c3 cli c4 w digest taggedImage e')
  from build_failed(1) have c3: "getDockerClient env = (c3, Inr cli)"
    by (simp add: reaches_push_def)
  from assms(1) build_failed(5) client_calls_no_stream [OF c3]
    push_succeeded_no_stream_error [OF build_failed(2)] show ?thesis
    by (simp split: if_splits)
next
  case (descriptor_failed m c3 cli c4 w digest taggedImage e')
  note d = reaches_descriptorD [OF descriptor_failed(1)]
  from assms(1) descriptor_failed(3) client_calls_no_stream [OF d(2)]
    push_succeeded_no_stream_error [OF d(3)] show ?thesis
    by (simp split: if_splits)
next
  case (tag_missing m c3 cli c4 w digest taggedImage bun)
  note d = reaches_descriptorD [OF tag_missing(1)]
  from assms(1) tag_missing(4) client_calls_no_stream [OF d(2)]
    push_succeeded_no_stream_error [OF d(3)] show ?thesis
    by (simp split: if_splits)
next
  case (tag_invalid m c3 cli c4 w digest taggedImage bun e')
  note d = reaches_descriptorD [OF tag_invalid(1)]
  from assms(1) tag_invalid(5) client_calls_no_stream [OF d(2)]
    push_succeeded_no_stream_error [OF d(3)] show ?thesis
    by (simp split: if_splits)
next
  case (relocation_failed m c3 cli c4 w digest taggedImage bun ref evs bun' e')
  note d = reaches_relocationD [OF relocation_failed(1)]
  from assms(1) relocation_failed(3) client_calls_no_stream [OF d(2)]
    push_succeeded_no_stream_error [OF d(3)] show ?thesis
    by (simp split: if_splits)
next
  case (final_push_failed m c3 cli c4 w digest taggedImage bun ref evs bun' e')
  note d = reaches_relocationD [OF final_push_failed(1)]
  from assms(1) final_push_failed(4) client_calls_no_stream [OF d(2)]
    push_succeeded_no_stream_error [OF d(3)] show ?thesis
    by (simp split: if_splits)
next
  case (published m c3 cli c4 w digest taggedImage bun ref evs bun' d')
  note d = reaches_relocationD [OF published(1)]
  from assms(1) published(4) client_calls_no_stream [OF d(2)]
    push_succeeded_no_stream_error [OF d(3)] show ?thesis
    by (simp split: if_splits)
qed

theorem denied_push_aborts_before_relocation_witness:
  "(Call_DisplayJSONMessagesStream, Some (New ''denied: requested access to the resource is denied''))
      \<in> set (calls (Publish
            (example_env\<lparr>DisplayJSONMessagesStream :=
               \<lambda>s. (s, Some (New ''denied: requested access to the resource is denied''))\<rparr>)
            example_opts))
   \<and> HasPrefix (err_Error (New ''denied: requested access to the resource is denied'')) ''denied''
   \<and> result (Publish
        (example_env\<lparr>DisplayJSONMessagesStream :=
           \<lambda>s. (s, Some (New ''denied: requested access to the resource is denied''))\<rparr>)
        example_opts)
       = Some (Wrap (Wrap (New ''denied: requested access to the resource is denied'')
                      ''docker push authentication failed'')
                ''unable to push CNAB invocation image'')"
  (is "?mem \<and> ?denied \<and> ?res")
proof -
  have "calls (Publish
        (example_env\<lparr>DisplayJSONMessagesStream :=
           \<lambda>s. (s, Some (New ''denied: requested access to the resource is denied''))\<rparr>)
        example_opts)
      = [(Call_LoadManifestFrom ''porter.yaml'', None), (Call_EnsureBundleIsUpToDate, None),
         (Call_NewDockerCli, None), (Call_Initialize, None),
         (Call_ParseNormalizedNamed ''myapp:v1'', None), (Call_ParseRepositoryInfo, None),
         (Call_ResolveAuthConfig, None), (Call_EncodeAuthToBase64, None),
         (Call_ImagePush ''myapp:v1'' ''dXNlcjpzZWNyZXQ='', None),
         (Call_DisplayJSONMessagesStream,
          Some (New ''denied: requested access to the resource is denied''))]"
    by code_simp
  then have mem: ?mem by simp
  have denied: ?denied by (simp add: HasPrefix_def)
  from denied_push_aborts_before_relocation [OF mem denied]
  have ?res by simp
  with mem denied show ?thesis by blast
qed

section \<open>Propagation of errors\<close>

text \<open>
  C3, as amended. When a run fails, the error it returns is determined by the last call
  made and by what that call returned. When the last call returned an error \<open>e\<close>: the
  errors of the manifest load, of the up-to-date check, of the client initialisation, of
  the relocation and of the final push are returned as they are, with no stage context;
  the error of the client creation, of every call of the push step, of the descriptor
  generation, of the descriptor parse and of the bundle tag parse is returned wrapped in
  the message of its stage, with \<open>e\<close> as the cause; the error of the parse of the pin
  step survives as text in a new error. When the last call returned no error, the run
  fails with an error the pipeline makes itself: the missing tag after the descriptor
  parse, or the image reference that is not named after the parse of the pin step.
  Nothing is said here about the error of reading the descriptor file.
\<close>

theorem Publish_error_propagation:
  assumes "result (Publish env opts) = Some err"
  shows "case last (calls (Publish env opts)) of
          (c, None) \<Rightarrow>
           (case c of
              Call_ParseReader \<Rightarrow> err = New ''porter.yaml must specify a `tag` value for this bundle''
            | Call_Parse s \<Rightarrow>
                err = Wrap (New ''had an issue with the docker image'')
                        ''unable to update invocation image reference: %s''
            | _ \<Rightarrow> False)
        | (c, Some e) \<Rightarrow>
           (case c of
              Call_LoadManifestFrom f \<Rightarrow> err = e
            | Call_LoadManifest \<Rightarrow> err = e
            | Call_EnsureBundleIsUpToDate \<Rightarrow> err = e
            | Call_NewDockerCli \<Rightarrow> err = Wrap e ''could not create new docker client''
            | Call_Initialize \<Rightarrow> err = e
            | Call_ParseNormalizedNamed s \<Rightarrow>
                err = Wrap e ''unable to push CNAB invocation image''
                \<or> err = Wrap e ''invalid bundle tag reference. expected value is REGISTRY/bundle:tag''
            | Call_ParseRepositoryInfo \<Rightarrow> err = Wrap e ''unable to push CNAB invocation image''
            | Call_ResolveAuthConfig \<Rightarrow> False
            | Call_EncodeAuthToBase64 \<Rightarrow> err = Wrap e ''unable to push CNAB invocation image''
            | Call_ImagePush img auth \<Rightarrow>
                err = Wrap (Wrap e ''docker push failed'') ''unable to push CNAB invocation image''
            | Call_DisplayJSONMessagesStream \<Rightarrow>
                err = Wrap (Wrap e (if HasPrefix (err_Error e) ''denied''
                                    then ''docker push authentication failed''
                                    else ''failed to stream docker push stdout''))
                        ''unable to push CNAB invocation image''
            | Call_DistributionInspect img auth \<Rightarrow>
                err = Wrap (Wrap e ''unable to inspect docker image'')
                        ''unable to push CNAB invocation image''
            | Call_Parse s \<Rightarrow>
                err = Wrap (New (''unable to parse docker image: '' @ err_Error e))
                        ''unable to update invocation image reference: %s''
            | Call_buildBundle img digest \<Rightarrow> err = Wrap e ''unable to generate CNAB bundle.json''
            | Call_ReadFile f \<Rightarrow> False
            | Call_ParseReader \<Rightarrow> err = Wrap e ''unable to load CNAB bundle''
            | Call_NewResolverConfig regs \<Rightarrow> False
            | Call_FixupBundle b ref rc \<Rightarrow> err = e
            | Call_Push b ref r \<Rightarrow> err = e)"
proof (cases env opts rule: Publish_cases)
  case (load_failed e)
  with assms show ?thesis by (simp split: if_splits)
next
  case (ensure_failed m e)
  with assms show ?thesis by simp
next
  case (client_failed m c3 e)
  from client_failed(4) assms have err: "err = e"
    by simp
  from getDockerClient_failed [OF client_failed(3)] have ne: "c3 \<noteq> []"
    by simp
  with client_failed(4) have lastR: "last (calls (Publish env opts)) = last c3"
    by simp
  from getDockerClient_failed [OF client_failed(3)] consider
    (create) e0 where "last c3 = (Call_NewDockerCli, Some e0)"
      "e = Wrap e0 ''could not create new docker client''"
    | (init) "last c3 = (Call_Initialize, Some e)"
    by blast
  then show ?thesis
  proof cases
    case create
    then show ?thesis unfolding lastR err by simp
  next
    case init
    then show ?thesis unfolding lastR err by simp
  qed
next
  case (push_failed m c3 cli c4 w e)
  from push_failed_last [OF push_failed(2)] obtain c e0 where
    ne: "c4 \<noteq> []" and l: "last c4 = (c, Some e0)" and
    rel: "case c of
              Call_ParseNormalizedNamed s \<Rightarrow> e = e0
            | Call_ParseRepositoryInfo \<Rightarrow> e = e0
            | Call_EncodeAuthToBase64 \<Rightarrow> e = e0
            | Call_ImagePush img auth \<Rightarrow> e = Wrap e0 ''docker push failed''
            | Call_DisplayJSONMessagesStream \<Rightarrow>
                e = Wrap e0 (if HasPrefix (err_Error e0) ''denied''
                              then ''docker push authentication failed''
                              else ''failed to stream docker push stdout'')
            | Call_DistributionInspect img auth \<Rightarrow> e = Wrap e0 ''unable to inspect docker image''
            | _ \<Rightarrow> False"
    by (cases "last c4") (auto split: option.splits)
  from push_failed(3) ne l have lastR: "last (calls (Publish env opts)) = (c, Some e0)"
    by simp
  from push_failed(3) assms have err: "err = Wrap e ''unable to push CNAB invocation image''"
    by simp
  from rel show ?thesis
    unfolding lastR err by (cases c) simp_all
next
  case (pin_failed m c3 cli c4 w digest e)
  from pin_failed(3) have
    "(\<exists>e0. Parse env (Image m) = Inl e0 \<and> e = New (''unable to parse docker image: '' @ err_Error e0))
     \<or> ((\<exists>r. Parse env (Image m) = Inr r) \<and> e = New ''had an issue with the docker image'')"
    by (auto simp: rewriteImageWithDigest_def Errorf_s_def split: sum.splits Reference.splits)
  then consider
    (unparsed) e0 where "Parse env (Image m) = Inl e0"
      "e = New (''unable to parse docker image: '' @ err_Error e0)"
    | (unnamed) r where "Parse env (Image m) = Inr r" "e = New ''had an issue with the docker image''"
    by blast
  then show ?thesis
  proof cases
    case unparsed
    with pin_failed(4) have lastR: "last (calls (Publish env opts)) = (Call_Parse (Image m), Some e0)"
      by simp
    from pin_failed(4) assms unparsed(2) have
      "err = Wrap (New (''unable to parse docker image: '' @ err_Error e0))
               ''unable to update invocation image reference: %s''"
      by simp
    then show ?thesis unfolding lastR by simp
  next
    case unnamed
    with pin_failed(4) have lastR: "last (calls (Publish env opts)) = (Call_Parse (Image m), None)"
      by simp
    from pin_failed(4) assms unnamed(2) have
      "err = Wrap (New ''had an issue with the docker image'')
               ''unable to update invocation image reference: %s''"
      by simp
    then show ?thesis unfolding lastR by simp
  qed
next
  case (build_failed m c3 cli c4 w digest taggedImage e)
  with assms show ?thesis by simp
next
  case (descriptor_failed m c3 cli c4 w digest taggedImage e)
  with assms show ?thesis by simp
next
  case (tag_missing m c3 cli c4 w digest taggedImage bun)
  with assms show ?thesis by simp
next
  case (tag_invalid m c3 cli c4 w digest taggedImage bun e)
  with assms show ?thesis by simp
next
  case (relocation_failed m c3 cli c4 w digest taggedImage bun ref evs bun' e)
  with assms show ?thesis by simp
next
  case (final_push_failed m c3 cli c4 w digest taggedImage bun ref evs bun' e)
  with assms show ?thesis by simp
next
  case (published m c3 cli c4 w digest taggedImage bun ref evs bun' d)
  with assms show ?thesis by simp
qed

theorem Publish_error_propagation_witness:
  "result (Publish (example_env\<lparr>buildBundle := \<lambda>m img digest. Some (New ''disk full'')\<rparr>) example_opts)
     = Some (Wrap (New ''disk full'') ''unable to generate CNAB bundle.json'')
   \<and> last (calls (Publish (example_env\<lparr>buildBundle := \<lambda>m img digest. Some (New ''disk full'')\<rparr>)
        example_opts))
     = (Call_buildBundle (''myapp@'' @ example_image_digest) example_image_digest, Some (New ''disk full''))"
  (is "?res \<and> ?last")
proof -
  have res: ?res by code_simp
  have l: ?last by code_simp
  from Publish_error_propagation [OF res] res l show ?thesis
    by simp
qed

text \<open>
  C3, as stated, fails: when the relocation fails, the run returns the error of
  \<open>FixupBundle\<close> itself, with no stage context around it.
\<close>

theorem relocation_error_unwrapped_counterexample:
  "result (Publish
      (example_env\<lparr>FixupBundle := \<lambda>b ref rc. ([], b, Some (New ''connection refused''))\<rparr>)
      example_opts)
     = Some (New ''connection refused'')"
  by code_simp

section \<open>The order of the stages\<close>

text \<open>
  C4. The stages run in the order load, push, pin, descriptor, tag, relocation, final push,
  and every failure but one ends the run. The failure of reading the descriptor file
  does not: here \<open>ReadFile\<close> hands back the bytes it read together with an error, the
  bytes parse, and the run goes on to relocate and to push, and returns no error.
\<close>

theorem read_error_does_not_abort:
  "Publish
     (example_env\<lparr>ReadFile := \<lambda>f. (''bundle descriptor'', Some (New ''read cnab/bundle.json: input/output error''))\<rparr>)
     example_opts
   = \<lparr>calls =
        [(Call_LoadManifestFrom ''porter.yaml'', None), (Call_EnsureBundleIsUpToDate, None),
         (Call_NewDockerCli, None), (Call_Initialize, None),
         (Call_ParseNormalizedNamed ''myapp:v1'', None), (Call_ParseRepositoryInfo, None),
         (Call_ResolveAuthConfig, None), (Call_EncodeAuthToBase64, None),
         (Call_ImagePush ''myapp:v1'' ''dXNlcjpzZWNyZXQ='', None),
         (Call_DisplayJSONMessagesStream, None),
         (Call_DistributionInspect ''myapp:v1'' ''dXNlcjpzZWNyZXQ='', None),
         (Call_Parse ''myapp:v1'', None),
         (Call_buildBundle (''myapp@'' @ example_image_digest) example_image_digest, None),
         (Call_ReadFile ''cnab/bundle.json'', Some (New ''read cnab/bundle.json: input/output error'')),
         (Call_ParseReader, None),
         (Call_ParseNormalizedNamed ''registry.example.com/bundles/myapp:v1'', None),
         (Call_NewResolverConfig [''registry.example.com''], None),
         (Call_FixupBundle ''bundle descriptor''
            (TaggedReference \<lparr>domain = ''registry.example.com'', path = ''bundles/myapp''\<rparr> ''v1'')
            \<lparr>Resolver = [''registry.example.com'']\<rparr>, None),
         (Call_Push ''bundle descriptor''
            (TaggedReference \<lparr>domain = ''registry.example.com'', path = ''bundles/myapp''\<rparr> ''v1'')
            [''registry.example.com''], None)],
      out =
        [''Pushing CNAB invocation image...\<newline>'', ''v1: digest: sha256:aaaa size: 528'',
         ''\<newline>Generating CNAB bundle.json...\<newline>'',
         ''Bundle tag registry.example.com/bundles/myapp:v1 pushed successfully, with digest ''
           @ [CHR 0x22] @ example_bundle_digest @ [CHR 0x22] @ ''\<newline>''],
      result = None\<rparr>"
  by code_simp

lemma client_calls_no_parse:
  assumes "getDockerClient env = (c3, r)"
  shows "(Call_ParseReader, x) \<notin> set c3"
  using getDockerClient_calls [OF assms] by fastforce

lemma push_calls_no_parse:
  assumes "publishInvocationImage env m cli = (c4, w, r)"
  shows "(Call_ParseReader, x) \<notin> set c4"
  using push_calls [OF assms] by fastforce

text \<open>
  C2, as amended. A run whose manifest declares an empty bundle tag never succeeds, creates
  no resolver, relocates nothing and pushes no descriptor. When the stages up to the
  parse of the bundle descriptor succeed, the run ends there, with the error that asks
  for a \<open>tag\<close> value, and by then the invocation image has been pushed.
\<close>

theorem empty_tag_fails_without_relocation:
  assumes "loadResult env opts = Inr m" and "BundleTag m = []"
  shows "result (Publish env opts) \<noteq> None
    \<and> (\<forall>c\<in>set (calls (Publish env opts)).
          \<not> is_NewResolverConfig (fst c) \<and> \<not> is_FixupBundle (fst c) \<and> \<not> is_Push (fst c))
    \<and> ((Call_ParseReader, None) \<in> set (calls (Publish env opts)) \<longrightarrow>
         result (Publish env opts)
           = Some (New ''porter.yaml must specify a `tag` value for this bundle'')
         \<and> last (calls (Publish env opts)) = (Call_ParseReader, None)
         \<and> (\<exists>auth. (Call_ImagePush (Image m) auth, None) \<in> set (calls (Publish env opts))))"
proof (cases env opts rule: Publish_cases)
  case (load_failed e)
  with assms(1) show ?thesis by simp
next
  case (ensure_failed m' e)
  then show ?thesis by (simp split: if_splits)
next
  case (client_failed m' c3 e)
  with client_calls_kinds [OF client_failed(3)] client_calls_no_parse [OF client_failed(3)]
  show ?thesis by (auto split: if_splits)
next
  case (push_failed m' c3 cli c4 w e)
  from push_failed(1) have c3: "getDockerClient env = (c3, Inr cli)"
    by (simp add: reaches_push_def)
  from push_failed(3) client_calls_kinds [OF c3] client_calls_no_parse [OF c3]
    push_calls_kinds [OF push_failed(2)] push_calls_no_parse [OF push_failed(2)]
  show ?thesis by (auto split: if_splits)
next
  case (pin_failed m' c3 cli c4 w digest e)
  from pin_failed(1) have c3: "getDockerClient env = (c3, Inr cli)"
    by (simp add: reaches_push_def)
  from pin_failed(4) client_calls_kinds [OF c3] client_calls_no_parse [OF c3]
    push_calls_kinds [OF pin_failed(2)] push_calls_no_parse [OF pin_failed(2)]
  show ?thesis by (auto split: if_splits)
next
  case (build_failed m' c3 cli c4 w digest taggedImage e)
  from build_failed(1) have c3: "getDockerClient env = (c3, Inr cli)"
    by (simp add: reaches_push_def)
  from build_failed(5) client_calls_kinds [OF c3] client_calls_no_parse [OF c3]
    push_calls_kinds [OF build_failed(2)] push_calls_no_parse [OF build_failed(2)]
  show ?thesis by (auto split: if_splits)
next
  case (descriptor_failed m' c3 cli c4 w digest taggedImage e)
  note d = reaches_descriptorD [OF descriptor_failed(1)]
  from descriptor_failed(3) client_calls_kinds [OF d(2)] client_calls_no_parse [OF d(2)]
    push_calls_kinds [OF d(3)] push_calls_no_parse [OF d(3)]
  show ?thesis by (auto split: if_splits)
next
  case (tag_missing m' c3 cli c4 w digest taggedImage bun)
  note d = reaches_descriptorD [OF tag_missing(1)]
  from d(1) assms(1) have m': "m' = m" by simp
  from push_succeeded [OF d(3)] obtain auth where
    "(Call_ImagePush (Image m') auth, None) \<in> set c4" by blast
  with m' have "\<exists>auth. (Call_ImagePush (Image m) auth, None) \<in> set (calls (Publish env opts))"
    using tag_missing(4) by auto
  with tag_missing(4) client_calls_kinds [OF d(2)] push_calls_kinds [OF d(3)]
  show ?thesis by (auto split: if_splits)
next
  case (tag_invalid m' c3 cli c4 w digest taggedImage bun e)
  note d = reaches_descriptorD [OF tag_invalid(1)]
  from d(1) assms tag_invalid(3) show ?thesis by simp
next
  case (relocation_failed m' c3 cli c4 w digest taggedImage bun ref evs bun' e)
  note d = reaches_relocationD [OF relocation_failed(1)]
  from d(1,4) assms show ?thesis by simp
next
  case (final_push_failed m' c3 cli c4 w digest taggedImage bun ref evs bun' e)
  note d = reaches_relocationD [OF final_push_failed(1)]
  from d(1,4) assms show ?thesis by simp
next
  case (published m' c3 cli c4 w digest taggedImage bun ref evs bun' d')
  note d = reaches_relocationD [OF published(1)]
  from d(1,4) assms show ?thesis by simp
qed

theorem empty_tag_fails_without_relocation_witness:
  "LoadManifestFrom (example_env\<lparr>LoadManifestFrom := \<lambda>f. Inr (example_manifest\<lparr>BundleTag := []\<rparr>)\<rparr>)
       ''porter.yaml'' = Inr (example_manifest\<lparr>BundleTag := []\<rparr>)
   \<and> BundleTag (example_manifest\<lparr>BundleTag := []\<rparr>) = []
   \<and> (Call_ParseReader, None) \<in> set (calls (Publish
         (example_env\<lparr>LoadManifestFrom := \<lambda>f. Inr (example_manifest\<lparr>BundleTag := []\<rparr>)\<rparr>) example_opts))
   \<and> result (Publish
         (example_env\<lparr>LoadManifestFrom := \<lambda>f. Inr (example_manifest\<lparr>BundleTag := []\<rparr>)\<rparr>) example_opts)
       = Some (New ''porter.yaml must specify a `tag` value for this bundle'')"
  (is "?load \<and> ?tag \<and> ?reached \<and> ?res")
proof -
  have f: "File example_opts = ''porter.yaml''"
    by (simp add: example_opts_def)
  have load: ?load by simp
  have tag: ?tag by simp
  have reached: ?reached by code_simp
  from empty_tag_fails_without_relocation
    [where env = "example_env\<lparr>LoadManifestFrom := \<lambda>f. Inr (example_manifest\<lparr>BundleTag := []\<rparr>)\<rparr>"
       and opts = example_opts and m = "example_manifest\<lparr>BundleTag := []\<rparr>"] reached
  have ?res by (simp add: f)
  with load tag reached show ?thesis by blast
qed

text \<open>
  C2, as stated, fails: with an empty bundle tag and every collaborator succeeding, the run
  ends with the error that asks for a \<open>tag\<close> value only after it has pushed the
  invocation image, read the push stream and inspected the image at the registry.
\<close>

theorem empty_tag_after_push_counterexample:
  "result (Publish
      (example_env\<lparr>LoadManifestFrom := \<lambda>f. Inr (example_manifest\<lparr>BundleTag := []\<rparr>)\<rparr>) example_opts)
     = Some (New ''porter.yaml must specify a `tag` value for this bundle'')
   \<and> filter is_network (map fst (calls (Publish
      (example_env\<lparr>LoadManifestFrom := \<lambda>f. Inr (example_manifest\<lparr>BundleTag := []\<rparr>)\<rparr>) example_opts)))
     = [Call_ImagePush ''myapp:v1'' ''dXNlcjpzZWNyZXQ='', Call_DisplayJSONMessagesStream,
        Call_DistributionInspect ''myapp:v1'' ''dXNlcjpzZWNyZXQ='']"
  by code_simp

lemma client_calls_none:
  assumes "getDockerClient env = (c3, r)"
  shows "(Call_NewResolverConfig regs, x) \<notin> set c3" and "(Call_FixupBundle b rf rc, x) \<notin> set c3"
    and "(Call_Push b rf rs, x) \<notin> set c3"
  using getDockerClient_calls [OF assms] by fastforce+

lemma push_calls_none:
  assumes "publishInvocationImage env m cli = (c4, w, r)"
  shows "(Call_NewResolverConfig regs, x) \<notin> set c4" and "(Call_FixupBundle b rf rc, x) \<notin> set c4"
    and "(Call_Push b rf rs, x) \<notin> set c4"
  using push_calls [OF assms] by fastforce+

section \<open>The registry security policy\<close>

text \<open>
  The list of insecure registries and the resolver configuration in the calls of a run
  whose bundle tag parses.
\<close>

lemma resolver_calls_of_run:
  assumes "loadResult env opts = Inr m"
    and "parseOCIReference (ParseNormalizedNamed env) (BundleTag m) = Inr ref"
  shows "(\<forall>c\<in>set (calls (Publish env opts)).
            (\<forall>regs. fst c = Call_NewResolverConfig regs \<longrightarrow>
               regs = insecure opts ref
               \<and> set regs = (if InsecureRegistry opts then {reference_Domain ref} else {}))
          \<and> (\<forall>b r rc. fst c = Call_FixupBundle b r rc \<longrightarrow>
               r = ref \<and> rc = createResolver env (insecure opts ref))
          \<and> (\<forall>b r rs. fst c = Call_Push b r rs \<longrightarrow>
               r = ref \<and> rs = Resolver (createResolver env (insecure opts ref))))
     \<and> length (filter (\<lambda>c. is_NewResolverConfig (fst c)) (calls (Publish env opts))) \<le> 1
     \<and> (result (Publish env opts) = None \<longrightarrow>
          length (filter (\<lambda>c. is_NewResolverConfig (fst c)) (calls (Publish env opts))) = 1
          \<and> list_ex (\<lambda>c. is_FixupBundle (fst c)) (calls (Publish env opts))
          \<and> list_ex (\<lambda>c. is_Push (fst c)) (calls (Publish env opts)))"
proof (cases env opts rule: Publish_cases)
  case (load_failed e)
  with assms(1) show ?thesis by simp
next
  case (ensure_failed m' e)
  then show ?thesis by (simp split: if_splits)
next
  case (client_failed m' c3 e)
  have f3: "filter (\<lambda>c. is_NewResolverConfig (fst c)) c3 = []"
    using client_calls_kinds [OF client_failed(3)] by (simp add: filter_empty_conv)
  from client_failed(4) f3
  show ?thesis by (auto split: if_splits simp: client_calls_none [OF client_failed(3)])
next
  case (push_failed m' c3 cli c4 w e)
  from push_failed(1) have c3: "getDockerClient env = (c3, Inr cli)"
    by (simp add: reaches_push_def)
  have f3: "filter (\<lambda>c. is_NewResolverConfig (fst c)) c3 = []"
    using client_calls_kinds [OF c3] by (simp add: filter_empty_conv)
  have f4: "filter (\<lambda>c. is_NewResolverConfig (fst c)) c4 = []"
    using push_calls_kinds [OF push_failed(2)] by (simp add: filter_empty_conv)
  from push_failed(3) f3 f4
  show ?thesis by (auto split: if_splits simp: client_calls_none [OF c3] push_calls_none [OF push_failed(2)])
next
  case (pin_failed m' c3 cli c4 w digest e)
  from pin_failed(1) have c3: "getDockerClient env = (c3, Inr cli)"
    by (simp add: reaches_push_def)
  have f3: "filter (\<lambda>c. is_NewResolverConfig (fst c)) c3 = []"
    using client_calls_kinds [OF c3] by (simp add: filter_empty_conv)
  have f4: "filter (\<lambda>c. is_NewResolverConfig (fst c)) c4 = []"
    using push_calls_kinds [OF pin_failed(2)] by (simp add: filter_empty_conv)
  from pin_failed(4) f3 f4
  show ?thesis by (auto split: if_splits simp: client_calls_none [OF c3] push_calls_none [OF pin_failed(2)])
next
  case (build_failed m' c3 cli c4 w digest taggedImage e)
  from build_failed(1) have c3: "getDockerClient env = (c3, Inr cli)"
    by (simp add: reaches_push_def)
  have f3: "filter (\<lambda>c. is_NewResolverConfig (fst c)) c3 = []"
    using client_calls_kinds [OF c3] by (simp add: filter_empty_conv)
  have f4: "filter (\<lambda>c. is_NewResolverConfig (fst c)) c4 = []"
    using push_calls_kinds [OF build_failed(2)] by (simp add: filter_empty_conv)
  from build_failed(5) f3 f4
  show ?thesis by (auto split: if_splits simp: client_calls_none [OF c3] push_calls_none [OF build_failed(2)])
next
  case (descriptor_failed m' c3 cli c4 w digest taggedImage e)
  note d = reaches_descriptorD [OF descriptor_failed(1)]
  have f3: "filter (\<lambda>c. is_NewResolverConfig (fst c)) c3 = []"
    using client_calls_kinds [OF d(2)] by (simp add: filter_empty_conv)
  have f4: "filter (\<lambda>c. is_NewResolverConfig (fst c)) c4 = []"
    using push_calls_kinds [OF d(3)] by (simp add: filter_empty_conv)
  from descriptor_failed(3) f3 f4
  show ?thesis by (auto split: if_splits simp: client_calls_none [OF d(2)] push_calls_none [OF d(3)])
next
  case (tag_missing m' c3 cli c4 w digest taggedImage bun)
  note d = reaches_descriptorD [OF tag_missing(1)]
  have f3: "filter (\<lambda>c. is_NewResolverConfig (fst c)) c3 = []"
    using client_calls_kinds [OF d(2)] by (simp add: filter_empty_conv)
  have f4: "filter (\<lambda>c. is_NewResolverConfig (fst c)) c4 = []"
    using push_calls_kinds [OF d(3)] by (simp add: filter_empty_conv)
  from tag_missing(4) f3 f4
  show ?thesis by (auto split: if_splits simp: client_calls_none [OF d(2)] push_calls_none [OF d(3)])
next
  case (tag_invalid m' c3 cli c4 w digest taggedImage bun e)
  note d = reaches_descriptorD [OF tag_invalid(1)]
  from d(1) assms tag_invalid(4) show ?thesis by simp
next
  case (relocation_failed m' c3 cli c4 w digest taggedImage bun ref' evs bun' e)
  note d = reaches_relocationD [OF relocation_failed(1)]
  from d(1,5) assms have eq: "m' = m" "ref' = ref" by simp_all
  have f3: "filter (\<lambda>c. is_NewResolverConfig (fst c)) c3 = []"
    using client_calls_kinds [OF d(2)] by (simp add: filter_empty_conv)
  have f4: "filter (\<lambda>c. is_NewResolverConfig (fst c)) c4 = []"
    using push_calls_kinds [OF d(3)] by (simp add: filter_empty_conv)
  from relocation_failed(3) f3 f4
  show ?thesis unfolding eq by (auto split: if_splits simp: client_calls_none [OF d(2)] push_calls_none [OF d(3)])
next
  case (final_push_failed m' c3 cli c4 w digest taggedImage bun ref' evs bun' e)
  note d = reaches_relocationD [OF final_push_failed(1)]
  from d(1,5) assms have eq: "m' = m" "ref' = ref" by simp_all
  have f3: "filter (\<lambda>c. is_NewResolverConfig (fst c)) c3 = []"
    using client_calls_kinds [OF d(2)] by (simp add: filter_empty_conv)
  have f4: "filter (\<lambda>c. is_NewResolverConfig (fst c)) c4 = []"
    using push_calls_kinds [OF d(3)] by (simp add: filter_empty_conv)
  from final_push_failed(4) f3 f4
  show ?thesis unfolding eq by (auto split: if_splits simp: client_calls_none [OF d(2)] push_calls_none [OF d(3)])
next
  case (published m' c3 cli c4 w digest taggedImage bun ref' evs bun' d')
  note d = reaches_relocationD [OF published(1)]
  from d(1,5) assms have eq: "m' = m" "ref' = ref" by simp_all
  have f3: "filter (\<lambda>c. is_NewResolverConfig (fst c)) c3 = []"
    using client_calls_kinds [OF d(2)] by (simp add: filter_empty_conv)
  have f4: "filter (\<lambda>c. is_NewResolverConfig (fst c)) c4 = []"
    using push_calls_kinds [OF d(3)] by (simp add: filter_empty_conv)
  from published(4) f3 f4
  show ?thesis unfolding eq by (auto split: if_splits simp: client_calls_none [OF d(2)] push_calls_none [OF d(3)])
qed

text \<open>
  C6, as amended. In a run whose bundle tag parses, the list of insecure registries holds
  the domain of the bundle tag when \<open>InsecureRegistry\<close> is set and is empty otherwise;
  nothing else enters it. The resolver configuration is made from that list, at most once
  in a run and exactly once in a run that publishes. Every call of the run that is handed
  a resolver is handed that one: the relocation gets the configuration and the final push
  its resolver. The registry calls that are handed no resolver are the other ones: the
  push of the invocation image, its progress stream and its inspection, which go through
  the Docker client.
\<close>

theorem insecure_registries_from_bundle_tag:
  assumes "loadResult env opts = Inr m"
    and "parseOCIReference (ParseNormalizedNamed env) (BundleTag m) = Inr ref"
  shows "(\<forall>c\<in>set (calls (Publish env opts)).
            (\<forall>regs. fst c = Call_NewResolverConfig regs \<longrightarrow>
               regs = insecure opts ref
               \<and> set regs = (if InsecureRegistry opts then {reference_Domain ref} else {}))
          \<and> (\<forall>b r rc. fst c = Call_FixupBundle b r rc \<longrightarrow>
               r = ref \<and> rc = createResolver env (insecure opts ref))
          \<and> (\<forall>b r rs. fst c = Call_Push b r rs \<longrightarrow>
               r = ref \<and> rs = Resolver (createResolver env (insecure opts ref)))
          \<and> (resolver_of (fst c) \<noteq> None \<longrightarrow>
               resolver_of (fst c) = Some (Resolver (createResolver env (insecure opts ref))))
          \<and> (is_network (fst c) \<longrightarrow>
               (resolver_of (fst c) = None) = (\<not> is_FixupBundle (fst c) \<and> \<not> is_Push (fst c))))
     \<and> length (filter (\<lambda>c. is_NewResolverConfig (fst c)) (calls (Publish env opts))) \<le> 1
     \<and> (result (Publish env opts) = None \<longrightarrow>
          length (filter (\<lambda>c. is_NewResolverConfig (fst c)) (calls (Publish env opts))) = 1
          \<and> list_ex (\<lambda>c. is_FixupBundle (fst c)) (calls (Publish env opts))
          \<and> list_ex (\<lambda>c. is_Push (fst c)) (calls (Publish env opts)))"
proof -
  note r = resolver_calls_of_run [OF assms]
  have "(resolver_of (fst c) \<noteq> None \<longrightarrow>
           resolver_of (fst c) = Some (Resolver (createResolver env (insecure opts ref))))
        \<and> (is_network (fst c) \<longrightarrow>
           (resolver_of (fst c) = None) = (\<not> is_FixupBundle (fst c) \<and> \<not> is_Push (fst c)))"
    if c: "c \<in> set (calls (Publish env opts))" for c
  proof -
    from r c have
      f: "\<forall>b r rc. fst c = Call_FixupBundle b r rc \<longrightarrow> rc = createResolver env (insecure opts ref)"
      and p: "\<forall>b r rs. fst c = Call_Push b r rs \<longrightarrow> rs = Resolver (createResolver env (insecure opts ref))"
      by blast+
    from f p show ?thesis
      by (cases "fst c") simp_all
  qed
  with r show ?thesis by blast
qed

theorem insecure_registries_from_bundle_tag_witness:
  "LoadManifestFrom example_env ''porter.yaml'' = Inr example_manifest
   \<and> parseOCIReference (ParseNormalizedNamed example_env) (BundleTag example_manifest)
       = Inr (TaggedReference \<lparr>domain = ''registry.example.com'', path = ''bundles/myapp''\<rparr> ''v1'')
   \<and> result (Publish example_env example_opts) = None
   \<and> length (filter (\<lambda>c. is_NewResolverConfig (fst c)) (calls (Publish example_env example_opts))) = 1
   \<and> filter (\<lambda>c. is_NewResolverConfig (fst c)) (calls (Publish example_env example_opts))
       = [(Call_NewResolverConfig [''registry.example.com''], None)]"
  (is "?load \<and> ?tag \<and> ?res \<and> ?once \<and> ?regs")
proof -
  have f: "File example_opts = ''porter.yaml''"
    by (simp add: example_opts_def)
  have load: ?load by (simp add: example_env_def)
  have tag: ?tag by code_simp
  have res: ?res by code_simp
  have regs: ?regs by code_simp
  from load f have load': "loadResult example_env example_opts = Inr example_manifest"
    by simp
  from insecure_registries_from_bundle_tag [OF load' tag] res have once: ?once
    by blast
  from load tag res once regs show ?thesis by blast
qed

text \<open>
  C6, as stated, fails: the resolver made from the list of insecure registries is not the
  one used for all registry operations of a run. In the example run the invocation image
  is pushed, its stream read and the image inspected at the registry before the resolver
  configuration is made, and the push is handed no resolver.
\<close>

theorem image_push_without_resolver_counterexample:
  "filter is_network
     (map fst (takeWhile (\<lambda>c. \<not> is_NewResolverConfig (fst c)) (calls (Publish example_env example_opts))))
     = [Call_ImagePush ''myapp:v1'' ''dXNlcjpzZWNyZXQ='', Call_DisplayJSONMessagesStream,
        Call_DistributionInspect ''myapp:v1'' ''dXNlcjpzZWNyZXQ='']
   \<and> resolver_of (Call_ImagePush ''myapp:v1'' ''dXNlcjpzZWNyZXQ='' :: (string, string list) call) = None
   \<and> resolver_of (Call_DistributionInspect ''myapp:v1'' ''dXNlcjpzZWNyZXQ='' :: (string, string list) call)
       = None"
  by code_simp

section \<open>Loading the manifest\<close>

text \<open>
  C8. The first call of every run loads the manifest: from the path of the options when
  one is given, from the default location otherwise, and that call's error ends the run.
  Option validation, which runs no stage of the pipeline, fails when the embedded
  validation leaves no manifest file: its error message tells the user to specify the
  manifest with \<open>--file\<close>. It returns the error of the embedded validation when there
  is one, and none when a file is set.
\<close>

theorem manifest_loaded_first:
  "hd (calls (Publish env opts))
     = (if File opts \<noteq> [] then Call_LoadManifestFrom (File opts) else Call_LoadManifest,
        errOf (if File opts \<noteq> [] then LoadManifestFrom env (File opts) else LoadManifest env))
   \<and> calls (Publish env opts) \<noteq> []
   \<and> (\<forall>e. loadResult env opts = Inl e \<longrightarrow>
         Publish env opts = \<lparr>calls = [(loadCall opts, Some e)], out = [], result = Some e\<rparr>)
   \<and> (\<forall>b. bfoValidate (bundleFileOptions.truncate opts) = (b, None) \<and> File b = [] \<longrightarrow>
         snd (Validate bfoValidate opts)
           = Some (New (''could not find porter.yaml in the current directory, ''
                        @ ''make sure you are in the right directory or ''
                        @ ''specify the porter manifest with --file'')))
   \<and> (\<forall>b. bfoValidate (bundleFileOptions.truncate opts) = (b, None) \<and> File b \<noteq> [] \<longrightarrow>
         snd (Validate bfoValidate opts) = None)
   \<and> (\<forall>b e. bfoValidate (bundleFileOptions.truncate opts) = (b, Some e) \<longrightarrow>
         snd (Validate bfoValidate opts) = Some e)"
proof -
  have v: "(\<forall>b. bfoValidate (bundleFileOptions.truncate opts) = (b, None) \<and> File b = [] \<longrightarrow>
         snd (Validate bfoValidate opts)
           = Some (New (''could not find porter.yaml in the current directory, ''
                        @ ''make sure you are in the right directory or ''
                        @ ''specify the porter manifest with --file'')))
   \<and> (\<forall>b. bfoValidate (bundleFileOptions.truncate opts) = (b, None) \<and> File b \<noteq> [] \<longrightarrow>
         snd (Validate bfoValidate opts) = None)
   \<and> (\<forall>b e. bfoValidate (bundleFileOptions.truncate opts) = (b, Some e) \<longrightarrow>
         snd (Validate bfoValidate opts) = Some e)"
    by (simp add: Validate_def)
  have p: "hd (calls (Publish env opts)) = (loadCall opts, errOf (loadResult env opts))
      \<and> calls (Publish env opts) \<noteq> []
      \<and> (\<forall>e. loadResult env opts = Inl e \<longrightarrow>
            Publish env opts = \<lparr>calls = [(loadCall opts, Some e)], out = [], result = Some e\<rparr>)"
  proof (cases env opts rule: Publish_cases)
    case (load_failed e)
    then show ?thesis by simp
  next
    case (ensure_failed m e)
    then show ?thesis by simp
  next
    case (client_failed m c3 e)
    then show ?thesis by simp
  next
    case (push_failed m c3 cli c4 w e)
    then show ?thesis by (simp add: reaches_push_def)
  next
    case (pin_failed m c3 cli c4 w digest e)
    then show ?thesis by (simp add: reaches_push_def)
  next
    case (build_failed m c3 cli c4 w digest taggedImage e)
    then show ?thesis by (simp add: reaches_push_def)
  next
    case (descriptor_failed m c3 cli c4 w digest taggedImage e)
    with reaches_descriptorD(1) [OF descriptor_failed(1)] show ?thesis by simp
  next
    case (tag_missing m c3 cli c4 w digest taggedImage bun)
    with reaches_descriptorD(1) [OF tag_missing(1)] show ?thesis by simp
  next
    case (tag_invalid m c3 cli c4 w digest taggedImage bun e)
    with reaches_descriptorD(1) [OF tag_invalid(1)] show ?thesis by simp
  next
    case (relocation_failed m c3 cli c4 w digest taggedImage bun ref evs bun' e)
    with reaches_relocationD(1) [OF relocation_failed(1)] show ?thesis by simp
  next
    case (final_push_failed m c3 cli c4 w digest taggedImage bun ref evs bun' e)
    with reaches_relocationD(1) [OF final_push_failed(1)] show ?thesis by simp
  next
    case (published m c3 cli c4 w digest taggedImage bun ref evs bun' d)
    with reaches_relocationD(1) [OF published(1)] show ?thesis by simp
  qed
  from p v show ?thesis by blast
qed

theorem manifest_loaded_first_witness:
  "hd (calls (Publish (example_env\<lparr>LoadManifest := Inl (New ''open porter.yaml: no such file'')\<rparr>)
         (example_opts\<lparr>File := []\<rparr>)))
     = (Call_LoadManifest, Some (New ''open porter.yaml: no such file''))
   \<and> Publish (example_env\<lparr>LoadManifest := Inl (New ''open porter.yaml: no such file'')\<rparr>)
         (example_opts\<lparr>File := []\<rparr>)
     = \<lparr>calls = [(Call_LoadManifest, Some (New ''open porter.yaml: no such file''))], out = [],
        result = Some (New ''open porter.yaml: no such file'')\<rparr>
   \<and> hd (calls (Publish example_env example_opts)) = (Call_LoadManifestFrom ''porter.yaml'', None)
   \<and> Validate (\<lambda>b. (b, None)) (example_opts\<lparr>File := []\<rparr>)
     = (example_opts\<lparr>File := []\<rparr>,
        Some (New ''could not find porter.yaml in the current directory, make sure you are in the right directory or specify the porter manifest with --file''))
   \<and> snd (Validate (\<lambda>b. (b, None)) example_opts) = None
   \<and> snd (Validate (\<lambda>b. (b, Some (New ''--file and --cnab-file are both set''))) example_opts)
     = Some (New ''--file and --cnab-file are both set'')"
proof -
  note t1 = manifest_loaded_first
    [where env = "example_env\<lparr>LoadManifest := Inl (New ''open porter.yaml: no such file'')\<rparr>"
       and opts = "example_opts\<lparr>File := []\<rparr>" and bfoValidate = "\<lambda>b. (b, None)"]
  note t2 = manifest_loaded_first [where env = example_env and opts = example_opts
       and bfoValidate = "\<lambda>b. (b, None)"]
  note t3 = manifest_loaded_first [where env = example_env and opts = example_opts
       and bfoValidate = "\<lambda>b. (b, Some (New ''--file and --cnab-file are both set''))"]
  have v: "Validate (\<lambda>b. (b, None)) (example_opts\<lparr>File := []\<rparr>)
     = (example_opts\<lparr>File := []\<rparr>,
        Some (New ''could not find porter.yaml in the current directory, make sure you are in the right directory or specify the porter manifest with --file''))"
    by (simp add: Validate_def example_opts_def bundleFileOptions.truncate_def)
  from t1 t2 t3 v show ?thesis
    by (simp add: example_opts_def example_env_def bundleFileOptions.truncate_def)
qed

section \<open>Pinning and parsing\<close>

text \<open>Facts about the digest grammar: a digest holds no \<open>/\<close> and is not empty.\<close>

lemma splitOnP_chars: "set s \<subseteq> {c. p c} \<union> \<Union> (set ` set (splitOnP p s))"
proof (induction s)
  case Nil
  then show ?case by simp
next
  case (Cons c cs)
  then show ?case by (cases "splitOnP p cs") (auto split: if_splits)
qed

lemma digestAlgorithmComponent_chars:
  assumes "digestAlgorithmComponent s" and "c \<in> set s"
  shows "is_alnum c"
proof -
  from assms(1) have "s \<noteq> []" "is_alnum (hd s)" "list_all is_alnum (tl s)"
    by (auto simp: digestAlgorithmComponent_def is_alnum_def)
  then have "list_all is_alnum s" by (cases s) auto
  with assms(2) show ?thesis by (simp add: list_all_iff)
qed

lemma slash_not_alnum: "\<not> is_alnum (CHR ''/'')" "\<not> is_xdigit (CHR ''/'')"
  by (simp_all add: is_alnum_def is_lower_def is_upper_def is_digit_def is_xdigit_def)

lemma DigestRegexp_no_slash:
  assumes "DigestRegexp d"
  shows "CHR ''/'' \<notin> set d" and "d \<noteq> []"
proof -
  let ?alg = "takeWhile (\<lambda>c. c \<noteq> CHR '':'') d"
  let ?rest = "dropWhile (\<lambda>c. c \<noteq> CHR '':'') d"
  let ?sep = "\<lambda>c. c = CHR ''-'' \<or> c = CHR ''_'' \<or> c = CHR ''+'' \<or> c = CHR ''.''"
  from assms have comps: "list_all digestAlgorithmComponent (splitOnP ?sep ?alg)"
    and rest: "?rest \<noteq> []" and hex: "list_all is_xdigit (tl ?rest)"
    by (simp_all add: DigestRegexp_def Let_def)
  from rest show "d \<noteq> []" by auto
  have a: "CHR ''/'' \<notin> set ?alg"
  proof
    assume m: "CHR ''/'' \<in> set ?alg"
    with splitOnP_chars [of ?alg ?sep] obtain x where "x \<in> set (splitOnP ?sep ?alg)" "CHR ''/'' \<in> set x"
      by auto
    with comps digestAlgorithmComponent_chars [of x "CHR ''/''"] slash_not_alnum show False
      by (auto simp: list_all_iff)
  qed
  from rest have hd: "hd ?rest = CHR '':''"
    using hd_dropWhile [of "\<lambda>c. c \<noteq> CHR '':''" d] by simp
  have r: "CHR ''/'' \<notin> set ?rest"
  proof
    assume "CHR ''/'' \<in> set ?rest"
    with rest hd have "CHR ''/'' \<in> set (tl ?rest)" by (cases ?rest) auto
    with hex slash_not_alnum show False by (auto simp: list_all_iff)
  qed
  have "d = ?alg @ ?rest" by simp
  then have "set d = set ?alg \<union> set ?rest" by (metis set_append)
  with a r show "CHR ''/'' \<notin> set d" by simp
qed


subsection \<open>Pieces of a reference string\<close>

text \<open>How the name, the tag part and the digest part sit in a string, and in a string
  put together from them.\<close>

lemma last_piece_no_slash: "CHR ''/'' \<notin> set (last_piece b)"
  unfolding last_piece_def using set_takeWhileD [of "CHR ''/''" "\<lambda>c. c \<noteq> CHR ''/''" "rev b"]
  by auto

lemma last_piece_suffix: "b = take (length b - length (last_piece b)) b @ last_piece b"
proof -
  have "rev b = takeWhile (\<lambda>c. c \<noteq> CHR ''/'') (rev b) @ dropWhile (\<lambda>c. c \<noteq> CHR ''/'') (rev b)"
    by simp
  then have "b = rev (dropWhile (\<lambda>c. c \<noteq> CHR ''/'') (rev b)) @ last_piece b"
    unfolding last_piece_def by (metis rev_append rev_rev_ident)
  then show ?thesis
    by (metis append_eq_conv_conj diff_add_inverse2 length_append)
qed

lemma last_piece_append_no_slash:
  assumes "CHR ''/'' \<notin> set x"
  shows "last_piece (b @ x) = last_piece b @ x"
proof -
  have "takeWhile (\<lambda>c. c \<noteq> CHR ''/'') (rev x @ rev b)
          = rev x @ takeWhile (\<lambda>c. c \<noteq> CHR ''/'') (rev b)"
    using assms by (intro takeWhile_append2) auto
  then show ?thesis by (simp add: last_piece_def)
qed

lemma last_piece_prefix:
  assumes "p = [] \<or> last p = CHR ''/''"
  shows "last_piece (p @ z) = last_piece z"
proof (cases "p = []")
  case True
  then show ?thesis by simp
next
  case False
  with assms have l: "last p = CHR ''/''" by simp
  from False l have hd: "hd (rev p) = CHR ''/''" "rev p \<noteq> []"
    by (simp_all add: hd_rev)
  then have t: "takeWhile (\<lambda>c. c \<noteq> CHR ''/'') (rev p) = []"
    by (cases "rev p") auto
  show ?thesis
  proof (cases "CHR ''/'' \<in> set z")
    case True
    then have "takeWhile (\<lambda>c. c \<noteq> CHR ''/'') (rev z @ rev p) = takeWhile (\<lambda>c. c \<noteq> CHR ''/'') (rev z)"
      by (intro takeWhile_append1 [where x = "CHR ''/''"]) auto
    then show ?thesis by (simp add: last_piece_def)
  next
    case False
    then have a: "takeWhile (\<lambda>c. c \<noteq> CHR ''/'') (rev z @ rev p)
        = rev z @ takeWhile (\<lambda>c. c \<noteq> CHR ''/'') (rev p)"
      by (intro takeWhile_append2) auto
    from False have b: "takeWhile (\<lambda>c. c \<noteq> CHR ''/'') (rev z) = rev z"
      by (intro takeWhile_eq_all_conv [THEN iffD2]) auto
    show ?thesis
      unfolding last_piece_def rev_append a b t by simp
  qed
qed

lemma name_tag_split: "b = name_part b @ tag_part b"
proof -
  have "last_piece b = takeWhile (\<lambda>c. c \<noteq> CHR '':'') (last_piece b) @ tag_part b"
    by (simp add: tag_part_def)
  with last_piece_suffix [of b] show ?thesis
    unfolding name_part_def by (metis append.assoc)
qed

lemma tag_part_no_slash: "CHR ''/'' \<notin> set (tag_part b)"
  using last_piece_no_slash [of b] set_dropWhileD [of "CHR ''/''" "\<lambda>c. c \<noteq> CHR '':''" "last_piece b"]
  by (auto simp: tag_part_def)

lemma tag_part_hd: "tag_part b = [] \<or> hd (tag_part b) = CHR '':''"
  using hd_dropWhile [of "\<lambda>c. c \<noteq> CHR '':''" "last_piece b"] by (auto simp: tag_part_def)

lemma name_part_last_piece:
  "last_piece (name_part b) = takeWhile (\<lambda>c. c \<noteq> CHR '':'') (last_piece b)"
proof -
  let ?pre = "take (length b - length (last_piece b)) b"
  let ?tw = "takeWhile (\<lambda>c. c \<noteq> CHR '':'') (last_piece b)"
  have pre: "?pre = [] \<or> last ?pre = CHR ''/''"
  proof (cases "?pre = []")
    case True then show ?thesis by simp
  next
    case False
    have rb: "rev b = takeWhile (\<lambda>c. c \<noteq> CHR ''/'') (rev b) @ dropWhile (\<lambda>c. c \<noteq> CHR ''/'') (rev b)"
      by simp
    have "b = rev (dropWhile (\<lambda>c. c \<noteq> CHR ''/'') (rev b)) @ last_piece b"
      unfolding last_piece_def by (metis rb rev_append rev_rev_ident)
    with last_piece_suffix [of b] have e: "?pre = rev (dropWhile (\<lambda>c. c \<noteq> CHR ''/'') (rev b))"
      by (metis append_same_eq)
    with False have ne: "dropWhile (\<lambda>c. c \<noteq> CHR ''/'') (rev b) \<noteq> []" by auto
    then have "hd (dropWhile (\<lambda>c. c \<noteq> CHR ''/'') (rev b)) = CHR ''/''"
      using hd_dropWhile [of "\<lambda>c. c \<noteq> CHR ''/''" "rev b"] by auto
    with ne e show ?thesis by (simp add: last_rev)
  qed
  have nos: "CHR ''/'' \<notin> set ?tw"
    using last_piece_no_slash [of b] set_takeWhileD [of "CHR ''/''" "\<lambda>c. c \<noteq> CHR '':''" "last_piece b"]
    by auto
  have "last_piece (?pre @ ?tw) = last_piece ?tw"
    using pre by (rule last_piece_prefix)
  also have "last_piece ?tw = ?tw"
    using nos last_piece_append_no_slash [of ?tw "[]"] by (simp add: last_piece_def)
  finally show ?thesis by (simp add: name_part_def)
qed

lemma name_part_append_tag:
  assumes "CHR '':'' \<notin> set (last_piece x)" and "CHR ''/'' \<notin> set t" and "t = [] \<or> hd t = CHR '':''"
  shows "name_part (x @ t) = x" and "tag_part (x @ t) = t"
proof -
  have lp: "last_piece (x @ t) = last_piece x @ t"
    using assms(2) by (rule last_piece_append_no_slash)
  have all: "\<forall>c\<in>set (last_piece x). c \<noteq> CHR '':''" using assms(1) by auto
  have tw: "takeWhile (\<lambda>c. c \<noteq> CHR '':'') (last_piece x @ t) = last_piece x"
    using all assms(3) by (cases t) (auto simp: takeWhile_append2)
  have dw: "dropWhile (\<lambda>c. c \<noteq> CHR '':'') (last_piece x @ t) = t"
    using all assms(3) by (cases t) (auto simp: dropWhile_append2)
  from dw lp show "tag_part (x @ t) = t" by (simp add: tag_part_def)
  have "take (length (x @ t) - length (last_piece x @ t)) (x @ t) = take (length x - length (last_piece x)) x"
    by simp
  with tw lp last_piece_suffix [of x] show "name_part (x @ t) = x"
    by (simp add: name_part_def)
qed


lemma ref_body_no_at: "CHR ''@'' \<notin> set (ref_body s)"
  unfolding ref_body_def using set_takeWhileD [of "CHR ''@''" "\<lambda>c. c \<noteq> CHR ''@''" s] by auto

lemma ref_body_digest_split: "s = ref_body s @ digest_part s"
  by (simp add: ref_body_def digest_part_def)

lemma digest_part_hd: "digest_part s = [] \<or> hd (digest_part s) = CHR ''@''"
  using hd_dropWhile [of "\<lambda>c. c \<noteq> CHR ''@''" s] by (auto simp: digest_part_def)

lemma ref_body_append:
  assumes "CHR ''@'' \<notin> set x" and "dp = [] \<or> hd dp = CHR ''@''"
  shows "ref_body (x @ dp) = x" and "digest_part (x @ dp) = dp"
proof -
  have all: "\<forall>c\<in>set x. c \<noteq> CHR ''@''" using assms(1) by auto
  show "ref_body (x @ dp) = x"
    using all assms(2) by (cases dp) (auto simp: ref_body_def takeWhile_append2)
  show "digest_part (x @ dp) = dp"
    using all assms(2) by (cases dp) (auto simp: digest_part_def dropWhile_append2)
qed

lemma name_part_subset: "set (name_part b) \<subseteq> set b"
  using name_tag_split [of b] by (metis Un_upper1 set_append)

lemma tag_part_subset: "set (tag_part b) \<subseteq> set b"
  using name_tag_split [of b] by (metis Un_upper2 set_append)

lemma name_part_no_colon_last: "CHR '':'' \<notin> set (last_piece (name_part b))"
  unfolding name_part_last_piece
  using set_takeWhileD [of "CHR '':''" "\<lambda>c. c \<noteq> CHR '':''" "last_piece b"] by auto

text \<open>The groups of the reference expression on a string put together from its pieces.\<close>

lemma ReferenceRegexp_pieces:
  assumes "CHR ''@'' \<notin> set x" and "CHR '':'' \<notin> set (last_piece x)"
    and "CHR ''/'' \<notin> set tp" and "CHR ''@'' \<notin> set tp" and "tp = [] \<or> hd tp = CHR '':''"
    and "dp = [] \<or> hd dp = CHR ''@''"
  shows "ReferenceRegexp (x @ tp @ dp)
     = (if NameRegexp x \<and> (tp = [] \<or> TagRegexp (tl tp)) \<and> (dp = [] \<or> DigestRegexp (tl dp))
        then Some (x, tl tp, tl dp) else None)"
proof -
  from assms(1,4) have "CHR ''@'' \<notin> set (x @ tp)" by simp
  from ref_body_append [OF this assms(6)]
  have b: "ref_body (x @ tp @ dp) = x @ tp" and d: "digest_part (x @ tp @ dp) = dp"
    by simp_all
  note n = name_part_append_tag [OF assms(2,3,5)]
  show ?thesis
    unfolding ReferenceRegexp_def b d n Let_def by simp
qed

lemma reference_pieces:
  "s = name_part (ref_body s) @ tag_part (ref_body s) @ digest_part s"
proof -
  have "s = ref_body s @ digest_part s" by (rule ref_body_digest_split)
  also have "ref_body s = name_part (ref_body s) @ tag_part (ref_body s)" by (rule name_tag_split)
  finally show ?thesis by simp
qed

lemma ReferenceRegexp_self:
  "ReferenceRegexp s
     = (if NameRegexp (name_part (ref_body s))
           \<and> (tag_part (ref_body s) = [] \<or> TagRegexp (tl (tag_part (ref_body s))))
           \<and> (digest_part s = [] \<or> DigestRegexp (tl (digest_part s)))
        then Some (name_part (ref_body s), tl (tag_part (ref_body s)), tl (digest_part s)) else None)"
  by (simp add: ReferenceRegexp_def Let_def)

subsection \<open>The domain split\<close>

lemma takeWhile_first_piece:
  assumes "CHR ''/'' \<notin> set f"
  shows "takeWhile (\<lambda>c. c \<noteq> CHR ''/'') (f @ CHR ''/'' # r) = f"
proof -
  have "\<forall>c\<in>set f. c \<noteq> CHR ''/''" using assms by auto
  then show ?thesis by (simp add: takeWhile_append2)
qed

lemma splitDockerDomain_slash:
  assumes "CHR ''/'' \<notin> set f"
  shows "splitDockerDomain (f @ CHR ''/'' # r)
     = (let (dom, remainder) =
              (if CHR ''.'' \<notin> set f \<and> CHR '':'' \<notin> set f \<and> f \<noteq> ''localhost''
               then (defaultDomain, f @ CHR ''/'' # r) else (f, r));
            dom' = (if dom = legacyDefaultDomain then defaultDomain else dom)
        in (dom', if dom' = defaultDomain \<and> CHR ''/'' \<notin> set remainder
                  then officialRepoName @ ''/'' @ remainder else remainder))"
  unfolding splitDockerDomain_def takeWhile_first_piece [OF assms] Let_def
  by simp

lemma splitDockerDomain_no_slash:
  assumes "CHR ''/'' \<notin> set n"
  shows "splitDockerDomain n = (defaultDomain, officialRepoName @ ''/'' @ n)"
  unfolding splitDockerDomain_def Let_def using assms
  by (simp add: defaultDomain_def legacyDefaultDomain_def)

lemma splitDockerDomain_append:
  assumes "CHR ''/'' \<notin> set x"
  shows "splitDockerDomain (n @ x) = (fst (splitDockerDomain n), snd (splitDockerDomain n) @ x)"
proof (cases "CHR ''/'' \<in> set n")
  case True
  then obtain f r where n: "n = f @ CHR ''/'' # r" and f: "CHR ''/'' \<notin> set f"
    by (meson split_list_first)
  have "splitDockerDomain (f @ CHR ''/'' # (r @ x))
      = (fst (splitDockerDomain (f @ CHR ''/'' # r)), snd (splitDockerDomain (f @ CHR ''/'' # r)) @ x)"
    unfolding splitDockerDomain_slash [OF f] Let_def using assms
    by (simp split: if_splits)
  then show ?thesis unfolding n by simp
next
  case False
  with assms have "CHR ''/'' \<notin> set (n @ x)" by simp
  from splitDockerDomain_no_slash [OF this] splitDockerDomain_no_slash [OF False]
  show ?thesis by simp
qed

lemma splitDockerDomain_no_at:
  assumes "CHR ''@'' \<notin> set n"
  shows "CHR ''@'' \<notin> set (fst (splitDockerDomain n))"
    and "CHR ''@'' \<notin> set (snd (splitDockerDomain n))"
proof -
  have "CHR ''@'' \<notin> set (fst (splitDockerDomain n)) \<and> CHR ''@'' \<notin> set (snd (splitDockerDomain n))"
  proof (cases "CHR ''/'' \<in> set n")
    case True
    then obtain f r where n: "n = f @ CHR ''/'' # r" and f: "CHR ''/'' \<notin> set f"
      by (meson split_list_first)
    from assms n have "CHR ''@'' \<notin> set f" "CHR ''@'' \<notin> set r" by simp_all
    then show ?thesis
      unfolding n splitDockerDomain_slash [OF f] Let_def
      by (simp add: defaultDomain_def legacyDefaultDomain_def officialRepoName_def split: if_splits)
  next
    case False
    from assms show ?thesis
      unfolding splitDockerDomain_no_slash [OF False]
      by (simp add: defaultDomain_def officialRepoName_def)
  qed
  then show "CHR ''@'' \<notin> set (fst (splitDockerDomain n))"
    and "CHR ''@'' \<notin> set (snd (splitDockerDomain n))" by simp_all
qed

lemma splitDockerDomain_last_piece:
  "last_piece (fst (splitDockerDomain n) @ ''/'' @ snd (splitDockerDomain n)) = last_piece n"
proof -
  let ?D = "fst (splitDockerDomain n)" and ?R = "snd (splitDockerDomain n)"
  have 1: "last_piece (?D @ ''/'' @ ?R) = last_piece ?R"
    using last_piece_prefix [of "?D @ ''/''" ?R] by simp
  have lib: "last_piece (officialRepoName @ ''/'' @ z) = last_piece z" for z
    using last_piece_prefix [of "officialRepoName @ ''/''" z] by simp
  have 2: "last_piece ?R = last_piece n"
  proof (cases "CHR ''/'' \<in> set n")
    case True
    then obtain f r where n: "n = f @ CHR ''/'' # r" and f: "CHR ''/'' \<notin> set f"
      by (meson split_list_first)
    have d: "last_piece (f @ CHR ''/'' # r) = last_piece r"
      using last_piece_prefix [of "f @ ''/''" r] by simp
    show ?thesis
      unfolding n splitDockerDomain_slash [OF f] Let_def using d lib
      by (simp split: if_splits)
  next
    case False
    show ?thesis
      unfolding splitDockerDomain_no_slash [OF False] using lib by simp
  qed
  from 1 2 show ?thesis by simp
qed


subsection \<open>What a successful parse says\<close>

lemma splitOnP_two:
  assumes "splitOnP p s = d # y # ys"
  shows "\<exists>c. p c \<and> s = d @ c # drop (length d + 1) s"
  using assms
proof (induction s arbitrary: d)
  case Nil
  then show ?case by simp
next
  case (Cons a s)
  show ?case
  proof (cases "p a")
    case True
    with Cons.prems have "d = []" by simp
    with True show ?thesis by auto
  next
    case False
    with Cons.prems obtain x where x: "splitOnP p s = x # y # ys" and d: "d = a # x"
      by (auto split: list.splits)
    from Cons.IH [OF x] obtain c where "p c" "s = x @ c # drop (length x + 1) s"
      by blast
    with d show ?thesis by auto
  qed
qed

lemma DomainRegexp_nonempty: "DomainRegexp d \<Longrightarrow> d \<noteq> []"
proof
  assume "DomainRegexp d" and "d = []"
  then show False
    by (simp add: DomainRegexp_def splitOn_def domainComponentRegexp_def)
qed

lemma repository_Name_anchoredNameRegexp: "repository_Name (anchoredNameRegexp n) = n"
proof (cases "\<exists>d c cs. splitOn (CHR ''/'') n = d # c # cs \<and> DomainRegexp d
                 \<and> list_all nameComponentRegexp (c # cs)")
  case True
  then obtain d c cs where sp: "splitOn (CHR ''/'') n = d # c # cs" and dom: "DomainRegexp d"
    and comps: "list_all nameComponentRegexp (c # cs)"
    by blast
  from sp splitOnP_two [of "\<lambda>a. a = CHR ''/''" n d c cs]
  have n: "n = d @ CHR ''/'' # drop (length d + 1) n"
    by (auto simp: splitOn_def)
  from sp dom comps have "anchoredNameRegexp n = \<lparr>domain = d, path = drop (length d + 1) n\<rparr>"
    by (simp add: anchoredNameRegexp_def)
  with DomainRegexp_nonempty [OF dom] n show ?thesis
    by (simp add: repository_Name_def)
next
  case False
  then have "anchoredNameRegexp n = \<lparr>domain = [], path = n\<rparr>"
    by (auto simp: anchoredNameRegexp_def split: list.splits)
  then show ?thesis by (simp add: repository_Name_def)
qed

lemma getBestReferenceType_Named:
  assumes "getBestReferenceType repo tag dig = Some (NamedRef r)"
  shows "repository_Name repo \<noteq> []" and "repo_of r = repo"
  using assms by (auto simp: getBestReferenceType_def split: if_splits)

lemma reference_Parse_Named:
  assumes "reference_Parse dv s = Inr (NamedRef r)"
  shows "\<exists>name tag dig. ReferenceRegexp s = Some (name, tag, dig) \<and> length name \<le> 255
           \<and> (dig \<noteq> [] \<longrightarrow> dv dig = None)
           \<and> getBestReferenceType (anchoredNameRegexp name) tag dig = Some (NamedRef r)"
proof (cases "ReferenceRegexp s")
  case None
  with assms show ?thesis
    by (simp add: reference_Parse_def split: if_splits)
next
  case (Some t)
  obtain name tag dig where t: "t = (name, tag, dig)" by (cases t)
  from assms Some t have len: "length name \<le> 255"
    by (simp add: reference_Parse_def split: if_splits)
  from assms Some t len have dv: "(if dig \<noteq> [] then dv dig else None) = None"
    by (cases "if dig \<noteq> [] then dv dig else None") (simp_all add: reference_Parse_def)
  from assms Some t len dv
  have "getBestReferenceType (anchoredNameRegexp name) tag dig = Some (NamedRef r)"
    by (simp add: reference_Parse_def split: option.splits)
  moreover from dv have "dig \<noteq> [] \<longrightarrow> dv dig = None"
    by (simp split: if_splits)
  ultimately show ?thesis using Some t len by simp
qed

lemma reference_ParseNormalizedNamed_Named:
  assumes "reference_ParseNormalizedNamed dv s = Inr r"
  shows "ToLower (takeWhile (\<lambda>c. c \<noteq> CHR '':'') (snd (splitDockerDomain s)))
           = takeWhile (\<lambda>c. c \<noteq> CHR '':'') (snd (splitDockerDomain s))"
    and "reference_Parse dv (fst (splitDockerDomain s) @ ''/'' @ snd (splitDockerDomain s))
           = Inr (NamedRef r)"
proof -
  obtain dom rem where sd: "splitDockerDomain s = (dom, rem)" by (cases "splitDockerDomain s")
  from assms have ni: "\<not> anchoredIdentifierRegexp s"
    by (auto simp: reference_ParseNormalizedNamed_def)
  from assms ni sd have low: "ToLower (takeWhile (\<lambda>c. c \<noteq> CHR '':'') rem) = takeWhile (\<lambda>c. c \<noteq> CHR '':'') rem"
    by (simp add: reference_ParseNormalizedNamed_def Let_def split: if_splits)
  from assms ni sd low have "reference_Parse dv (dom @ ''/'' @ rem) = Inr (NamedRef r)"
    by (simp add: reference_ParseNormalizedNamed_def Let_def split: sum.splits Reference.splits)
  with low sd show
    "ToLower (takeWhile (\<lambda>c. c \<noteq> CHR '':'') (snd (splitDockerDomain s)))
           = takeWhile (\<lambda>c. c \<noteq> CHR '':'') (snd (splitDockerDomain s))"
    and "reference_Parse dv (fst (splitDockerDomain s) @ ''/'' @ snd (splitDockerDomain s))
           = Inr (NamedRef r)"
    by simp_all
qed

lemma not_identifier_with_at: "\<not> anchoredIdentifierRegexp (n @ CHR ''@'' # d)"
  by (simp add: anchoredIdentifierRegexp_def)

lemma ToLower_append: "ToLower (a @ b) = ToLower a @ ToLower b"
  by (simp add: ToLower_def)

lemma ToLower_length: "length (ToLower a) = length a"
  by (simp add: ToLower_def)

lemma ToLower_at: "ToLower (CHR ''@'' # a) = CHR ''@'' # ToLower a"
  by (simp add: ToLower_def is_upper_def)


lemma at_cons_no_slash: "x = CHR ''@'' # y \<Longrightarrow> CHR ''/'' \<notin> set y \<Longrightarrow> CHR ''/'' \<notin> set x"
  by simp

lemma lower_remote_name:
  assumes "ToLower (takeWhile (\<lambda>c. c \<noteq> CHR '':'') (r @ x)) = takeWhile (\<lambda>c. c \<noteq> CHR '':'') (r @ x)"
    and "ToLower (takeWhile (\<lambda>c. c \<noteq> CHR '':'') d) = takeWhile (\<lambda>c. c \<noteq> CHR '':'') d"
  shows "ToLower (takeWhile (\<lambda>c. c \<noteq> CHR '':'') (r @ CHR ''@'' # d))
           = takeWhile (\<lambda>c. c \<noteq> CHR '':'') (r @ CHR ''@'' # d)"
proof (cases "CHR '':'' \<in> set r")
  case True
  then have "takeWhile (\<lambda>c. c \<noteq> CHR '':'') (r @ y) = takeWhile (\<lambda>c. c \<noteq> CHR '':'') r" for y
    by (intro takeWhile_append1 [where x = "CHR '':''"]) auto
  with assms(1) show ?thesis by simp
next
  case False
  then have all: "\<forall>c\<in>set r. c \<noteq> CHR '':''" by auto
  then have tw: "takeWhile (\<lambda>c. c \<noteq> CHR '':'') (r @ y) = r @ takeWhile (\<lambda>c. c \<noteq> CHR '':'') y" for y
    by (simp add: takeWhile_append2)
  from assms(1) have "ToLower r @ ToLower (takeWhile (\<lambda>c. c \<noteq> CHR '':'') x)
      = r @ takeWhile (\<lambda>c. c \<noteq> CHR '':'') x"
    unfolding tw ToLower_append .
  then have r: "ToLower r = r"
    by (simp add: append_eq_append_conv ToLower_length)
  show ?thesis
    unfolding tw by (simp add: ToLower_append ToLower_at r assms(2))
qed

text \<open>
  C1, as amended. Take an image string that \<open>reference.Parse\<close>, which the pin uses,
  and \<open>parseOCIReference\<close> both accept, with a tag or without, and a digest string that
  is a digest: it matches the digest production of the grammar, \<open>digest.Parse\<close> accepts
  it, and its algorithm is in lower case. Then the pin returns the name of the image as
  the image string writes it, not normalized, followed by \<open>@\<close> and the digest; and
  parsing that result gives a reference with no tag, with the digest supplied, and with
  the repository of the parsed image.
\<close>

theorem pin_then_parse:
  assumes pnn: "parseOCIReference (reference_ParseNormalizedNamed dv) img = Inr r0"
    and prs: "reference_Parse dv img = Inr (NamedRef named)"
    and dre: "DigestRegexp d"
    and dvd: "dv d = None"
    and low: "ToLower (takeWhile (\<lambda>c. c \<noteq> CHR '':'') d) = takeWhile (\<lambda>c. c \<noteq> CHR '':'') d"
  shows "rewriteImageWithDigest (reference_Parse dv) img d = Inr (Name named @ ''@'' @ d)
     \<and> img = Name named @ tag_part (ref_body img) @ digest_part img
     \<and> parseOCIReference (reference_ParseNormalizedNamed dv) (Name named @ ''@'' @ d)
         = Inr (CanonicalReference (repo_of r0) d)
     \<and> tag_of (CanonicalReference (repo_of r0) d) = None
     \<and> digest_of (CanonicalReference (repo_of r0) d) = Some d"
proof -
  let ?b = "ref_body img"
  let ?n = "name_part ?b" and ?tp = "tag_part ?b" and ?dp = "digest_part img"
  let ?D = "fst (splitDockerDomain ?n)" and ?R = "snd (splitDockerDomain ?n)"
  let ?N = "?D @ ''/'' @ ?R"
  \<comment> \<open>the image string as \<open>reference.Parse\<close> reads it\<close>
  from reference_Parse_Named [OF prs] obtain name tag dig where
    rr: "ReferenceRegexp img = Some (name, tag, dig)"
    and gb: "getBestReferenceType (anchoredNameRegexp name) tag dig = Some (NamedRef named)"
    by blast
  from rr have name: "name = ?n" and dpv: "?dp = [] \<or> DigestRegexp (tl ?dp)"
    unfolding ReferenceRegexp_self by (simp_all split: if_splits)
  from getBestReferenceType_Named(2) [OF gb] name
  have nm: "Name named = ?n"
    by (simp add: Name_def repository_Name_anchoredNameRegexp)
  have pieces: "img = ?n @ ?tp @ ?dp" by (rule reference_pieces)
  have n_at: "CHR ''@'' \<notin> set ?n"
    using ref_body_no_at [of img] name_part_subset [of ?b] by blast
  have tp_at: "CHR ''@'' \<notin> set ?tp"
    using ref_body_no_at [of img] tag_part_subset [of ?b] by blast
  have dp_slash: "CHR ''/'' \<notin> set ?dp"
  proof (cases "?dp = []")
    case True then show ?thesis by simp
  next
    case False
    with dpv have "DigestRegexp (tl ?dp)" by simp
    from DigestRegexp_no_slash(1) [OF this] have "CHR ''/'' \<notin> set (tl ?dp)" .
    moreover from False digest_part_hd [of img] have "?dp = CHR ''@'' # tl ?dp"
      by (cases ?dp) auto
    ultimately show ?thesis by (rule at_cons_no_slash [rotated])
  qed
  have sfx_slash: "CHR ''/'' \<notin> set (?tp @ ?dp)"
    using tag_part_no_slash [of ?b] dp_slash by simp
  \<comment> \<open>the image string as \<open>ParseNormalizedNamed\<close> reads it\<close>
  have "splitDockerDomain img = splitDockerDomain (?n @ (?tp @ ?dp))"
    using pieces by simp
  also have "\<dots> = (?D, ?R @ ?tp @ ?dp)"
    using splitDockerDomain_append [OF sfx_slash] by simp
  finally have sd: "splitDockerDomain img = (?D, ?R @ ?tp @ ?dp)" .
  from pnn have pnn': "reference_ParseNormalizedNamed dv img = Inr r0"
    by (simp add: parseOCIReference_def)
  from reference_ParseNormalizedNamed_Named [OF pnn']
  have lc: "ToLower (takeWhile (\<lambda>c. c \<noteq> CHR '':'') (?R @ ?tp @ ?dp))
              = takeWhile (\<lambda>c. c \<noteq> CHR '':'') (?R @ ?tp @ ?dp)"
    and p0: "reference_Parse dv (?N @ ?tp @ ?dp) = Inr (NamedRef r0)"
    unfolding sd by simp_all
  have N_at: "CHR ''@'' \<notin> set ?N"
    using splitDockerDomain_no_at [OF n_at] by simp
  have N_colon: "CHR '':'' \<notin> set (last_piece ?N)"
    unfolding splitDockerDomain_last_piece by (rule name_part_no_colon_last)
  from reference_Parse_Named [OF p0] obtain name' tag' dig' where
    rr': "ReferenceRegexp (?N @ ?tp @ ?dp) = Some (name', tag', dig')"
    and len': "length name' \<le> 255"
    and gb': "getBestReferenceType (anchoredNameRegexp name') tag' dig' = Some (NamedRef r0)"
    by blast
  from rr' have name': "name' = ?N" and nre: "NameRegexp ?N"
    unfolding ReferenceRegexp_pieces [OF N_at N_colon tag_part_no_slash tp_at tag_part_hd digest_part_hd]
    by (simp_all split: if_splits)
  from getBestReferenceType_Named [OF gb'] name'
  have repo: "repo_of r0 = anchoredNameRegexp ?N" and rn: "repository_Name (anchoredNameRegexp ?N) \<noteq> []"
    by simp_all
  \<comment> \<open>the pinned string\<close>
  from DigestRegexp_no_slash [OF dre] have d_slash: "CHR ''/'' \<notin> set (CHR ''@'' # d)" and d_ne: "d \<noteq> []"
    by simp_all
  have sd2: "splitDockerDomain (?n @ CHR ''@'' # d) = (?D, ?R @ CHR ''@'' # d)"
    using splitDockerDomain_append [OF d_slash] by simp
  have lc2: "ToLower (takeWhile (\<lambda>c. c \<noteq> CHR '':'') (?R @ CHR ''@'' # d))
               = takeWhile (\<lambda>c. c \<noteq> CHR '':'') (?R @ CHR ''@'' # d)"
    using lc low by (rule lower_remote_name)
  from ReferenceRegexp_pieces [OF N_at N_colon, of "[]" "CHR ''@'' # d"] nre dre
  have rr2: "ReferenceRegexp (?N @ CHR ''@'' # d) = Some (?N, [], d)"
    by simp
  have p2: "reference_Parse dv (?N @ CHR ''@'' # d) = Inr (NamedRef (CanonicalReference (anchoredNameRegexp ?N) d))"
    unfolding reference_Parse_def rr2 using len' name' d_ne dvd rn
    by (simp add: getBestReferenceType_def)
  have "reference_ParseNormalizedNamed dv (?n @ CHR ''@'' # d)
      = Inr (CanonicalReference (anchoredNameRegexp ?N) d)"
    unfolding reference_ParseNormalizedNamed_def sd2 Let_def
    using not_identifier_with_at [of ?n d] lc2 p2 by simp
  with nm repo have pin: "parseOCIReference (reference_ParseNormalizedNamed dv) (Name named @ ''@'' @ d)
         = Inr (CanonicalReference (repo_of r0) d)"
    by (simp add: parseOCIReference_def)
  have rw: "rewriteImageWithDigest (reference_Parse dv) img d = Inr (Name named @ ''@'' @ d)"
    using prs by (simp add: rewriteImageWithDigest_def)
  from rw pieces nm pin show ?thesis by simp
qed

theorem pin_then_parse_witness:
  "parseOCIReference (reference_ParseNormalizedNamed example_digest_Parse) ''myapp:v1''
     = Inr (TaggedReference \<lparr>domain = ''docker.io'', path = ''library/myapp''\<rparr> ''v1'')
   \<and> reference_Parse example_digest_Parse ''myapp:v1''
     = Inr (NamedRef (TaggedReference \<lparr>domain = [], path = ''myapp''\<rparr> ''v1''))
   \<and> DigestRegexp example_image_digest
   \<and> example_digest_Parse example_image_digest = None
   \<and> rewriteImageWithDigest (reference_Parse example_digest_Parse) ''myapp:v1'' example_image_digest
     = Inr (''myapp@'' @ example_image_digest)
   \<and> parseOCIReference (reference_ParseNormalizedNamed example_digest_Parse)
        (''myapp@'' @ example_image_digest)
     = Inr (CanonicalReference \<lparr>domain = ''docker.io'', path = ''library/myapp''\<rparr> example_image_digest)"
proof -
  have a: "parseOCIReference (reference_ParseNormalizedNamed example_digest_Parse) ''myapp:v1''
     = Inr (TaggedReference \<lparr>domain = ''docker.io'', path = ''library/myapp''\<rparr> ''v1'')"
    by code_simp
  have b: "reference_Parse example_digest_Parse ''myapp:v1''
     = Inr (NamedRef (TaggedReference \<lparr>domain = [], path = ''myapp''\<rparr> ''v1''))"
    by code_simp
  have c: "DigestRegexp example_image_digest" by code_simp
  have d: "example_digest_Parse example_image_digest = None" by code_simp
  have e: "ToLower (takeWhile (\<lambda>c. c \<noteq> CHR '':'') example_image_digest)
      = takeWhile (\<lambda>c. c \<noteq> CHR '':'') example_image_digest" by code_simp
  have n: "Name (TaggedReference \<lparr>domain = [], path = ''myapp''\<rparr> ''v1'') = ''myapp''"
    by (simp add: Name_def repository_Name_def)
  from pin_then_parse [OF a b c d e] a b c d show ?thesis
    by (simp add: n)
qed

text \<open>
  C1, as stated, fails: it speaks of every digest string. The image \<open>myapp:v1\<close>
  parses, the pin with the digest string \<open>sha256:aaa\<close> returns \<open>myapp@sha256:aaa\<close>,
  and the parser rejects that string, whose digest is too short for the grammar.
\<close>

theorem pin_unparseable_counterexample:
  "parseOCIReference (reference_ParseNormalizedNamed example_digest_Parse) ''myapp:v1''
     = Inr (TaggedReference \<lparr>domain = ''docker.io'', path = ''library/myapp''\<rparr> ''v1'')
   \<and> rewriteImageWithDigest (reference_Parse example_digest_Parse) ''myapp:v1'' ''sha256:aaa''
       = Inr ''myapp@sha256:aaa''
   \<and> parseOCIReference (reference_ParseNormalizedNamed example_digest_Parse) ''myapp@sha256:aaa''
       = Inl ErrReferenceInvalidFormat"
  by code_simp

end
